theory Spec2Isabelle
  imports Complex_Main "HOL-Library.Sublist"
begin

section \<open>Python values used by the simulation\<close>

text \<open>
  The repository is Python. Exceptions are values of \<open>py_error\<close>; a method that can
  raise returns \<open>py_error + 'a\<close> with \<open>Inl\<close> for the exception. Only the exceptions the
  modelled code can raise are listed.
\<close>

datatype py_error = IndexError | KeyError | ValueError | TypeError | AttributeError

type_synonym position = "int \<times> int"

text \<open>
  \<open>xs[i]\<close> on a Python list: a negative index counts from the end, and an index outside
  \<open>-len(xs) \<le> i < len(xs)\<close> raises IndexError.
\<close>

definition py_index :: "nat \<Rightarrow> int \<Rightarrow> py_error + nat" where
  "py_index n i =
     (let j = (if i < 0 then i + int n else i)
      in if 0 \<le> j \<and> j < int n then Inr (nat j) else Inl IndexError)"

definition py_getitem :: "'a list \<Rightarrow> int \<Rightarrow> py_error + 'a" where
  "py_getitem xs i =
     (case py_index (length xs) i of Inl e \<Rightarrow> Inl e | Inr k \<Rightarrow> Inr (xs ! k))"

definition py_setitem :: "'a list \<Rightarrow> int \<Rightarrow> 'a \<Rightarrow> py_error + 'a list" where
  "py_setitem xs i v =
     (case py_index (length xs) i of Inl e \<Rightarrow> Inl e | Inr k \<Rightarrow> Inr (xs[k := v]))"

text \<open>
  \<open>g[i][j] = v\<close> on a list of lists: the row \<open>g[i]\<close> is read first, then its item \<open>j\<close> is
  assigned. The rows of the grid are separate lists, so only row \<open>i\<close> changes.
\<close>

definition grid_setitem :: "'a list list \<Rightarrow> int \<Rightarrow> int \<Rightarrow> 'a \<Rightarrow> py_error + 'a list list" where
  "grid_setitem g i j v =
     (case py_index (length g) i of
        Inl e \<Rightarrow> Inl e
      | Inr r \<Rightarrow> (case py_setitem (g ! r) j v of
                  Inl e \<Rightarrow> Inl e
                | Inr row \<Rightarrow> Inr (g[r := row])))"

text \<open>\<open>sub in s\<close> on Python strings: \<open>sub\<close> occurs in \<open>s\<close> as a contiguous substring.\<close>

fun contains :: "'a list \<Rightarrow> 'a list \<Rightarrow> bool" where
  "contains sub [] = (sub = [])"
| "contains sub (c # cs) = (prefix sub (c # cs) \<or> contains sub cs)"

text \<open>
  \<open>s.replace(old, new)\<close>: every occurrence of \<open>old\<close>, found from left to right without
  overlap, becomes \<open>new\<close>. For an empty \<open>old\<close> Python puts \<open>new\<close> before every character
  and at the end. \<open>replace_nonempty\<close> is the scan for an \<open>old\<close> that is not empty: after an
  occurrence at \<open>c # cs\<close> it goes on behind it, at \<open>drop (length old - 1) cs\<close>.
\<close>

fun replace_nonempty :: "'a list \<Rightarrow> 'a list \<Rightarrow> 'a list \<Rightarrow> 'a list" where
  "replace_nonempty old new [] = []"
| "replace_nonempty old new (c # cs) =
     (if prefix old (c # cs) then new @ replace_nonempty old new (drop (length old - 1) cs)
      else c # replace_nonempty old new cs)"

definition py_replace :: "'a list \<Rightarrow> 'a list \<Rightarrow> 'a list \<Rightarrow> 'a list" where
  "py_replace s old new =
     (if old = [] then new @ concat (map (\<lambda>c. c # new) s) else replace_nonempty old new s)"

text \<open>
  The cell tokens of consts.py. The file is not among the sources, so the values are
  parameters: every function that names a token takes the record \<open>K\<close> of them.
\<close>

record cell_tokens =
  EMPTY :: string
  HOLE :: string
  ORB :: string
  FILLED_HOLE :: string
  AGENT :: string

text \<open>
  Modelled from the spec: the direction constants \<open>UP\<close>, \<open>RIGHT\<close>, \<open>DOWN\<close>, \<open>LEFT\<close> of
  consts.py are missing; the spec has four cardinal directions, cyclically ordered
  clockwise. \<open>Agent.directions\<close> lists them in this order, and \<open>Agent.__init__\<close> starts
  with \<open>'up'\<close>, taken to be \<open>UP\<close>.
\<close>

datatype direction = UP | RIGHT | DOWN | LEFT

text \<open>
  Modelled from the spec: \<open>utils.get_new_position\<close> is missing. The step of one cell is
  the one \<open>Playground.switch_orb_positions\<close> writes out for the same four constants
  (up is \<open>y - 1\<close>, right is \<open>x + 1\<close>), and the one \<open>Agent.action\<close> steers by (it faces
  \<open>RIGHT\<close> when the target's \<open>x\<close> is larger, \<open>DOWN\<close> when its \<open>y\<close> is larger).
\<close>

fun get_new_position :: "direction \<Rightarrow> position \<Rightarrow> position" where
  "get_new_position UP (x, y) = (x, y - 1)"
| "get_new_position RIGHT (x, y) = (x + 1, y)"
| "get_new_position DOWN (x, y) = (x, y + 1)"
| "get_new_position LEFT (x, y) = (x - 1, y)"

section \<open>The state of an agent and of the playground\<close>


text \<open>
  The fields of \<open>Playground.__init__\<close>. \<open>dimension\<close> is kept as its two components
  \<open>xAxis\<close> and \<open>yAxis\<close>. The grid is a list of \<open>yAxis\<close> rows, each a list of \<open>xAxis\<close> cell
  strings, so the cell of position \<open>(x, y)\<close> is \<open>grid[y][x]\<close>.
\<close>

record playground =
  xAxis :: int
  yAxis :: int
  grid :: "string list list"
  agent_start_positions :: "position set"
  num_holes :: int
  num_orbs :: int
  orb_positions :: "position set"
  field_of_view :: int

text \<open>
  The fields of \<open>Agent.__init__\<close> (src/Agent.py). Two field names are shared with the
  playground, so they are written \<open>agent.orb_positions\<close>, \<open>playground.orb_positions\<close>
  and likewise for \<open>field_of_view\<close>. The known orbs and holes are Python lists, in
  discovery order.
\<close>

record agent =
  agent_id :: string
  position :: position
  field_of_view :: int
  visibility :: "string list list"
  visited_cell :: "position set"
  direction :: direction
  battery :: int
  has_ball :: bool
  hole_positions :: "position list"
  orb_positions :: "position list"
  target_position :: "position option"
  is_a_random_target :: bool
  filled_hole_positions :: "position set"

text \<open>\<open>Agent.get_label\<close>: \<open>AGENT + '-' + self.agent_id\<close>.\<close>

definition get_label :: "cell_tokens \<Rightarrow> agent \<Rightarrow> string" where
  "get_label K ag = AGENT K @ ''-'' @ agent_id ag"

text \<open>
  \<open>Agent.__init__\<close> with the default \<open>visibility\<close>: a square of \<open>EMPTY\<close> with the agent's
  label written at its centre, which raises IndexError for a field of view below 1.
  The id is the one given (a fresh UUID string when the caller gives none).
\<close>

definition Agent :: "cell_tokens \<Rightarrow> string \<Rightarrow> position \<Rightarrow> int \<Rightarrow> int \<Rightarrow> py_error + agent" where
  "Agent K aid pos fov bat =
     (let ag = \<lparr> agent_id = aid, position = pos, field_of_view = fov,
                 visibility = replicate (nat fov) (replicate (nat fov) (EMPTY K)),
                 visited_cell = {pos}, direction = UP, battery = bat, has_ball = False,
                 hole_positions = [], orb_positions = [], target_position = None,
                 is_a_random_target = False, filled_hole_positions = {} \<rparr>
      in case grid_setitem (visibility ag) (fov div 2) (fov div 2) (get_label K ag) of
           Inl e \<Rightarrow> Inl e
         | Inr v \<Rightarrow> Inr (ag\<lparr>visibility := v\<rparr>))"

section \<open>Playground (src/Playground.py)\<close>

text \<open>
  \<open>Playground.__init__\<close>: \<open>[[EMPTY] * xAxis for _ in range(yAxis)]\<close>. A negative
  count gives an empty list in Python, as \<open>nat\<close> does.
\<close>

definition Playground :: "cell_tokens \<Rightarrow> position \<Rightarrow> int \<Rightarrow> int \<Rightarrow> int \<Rightarrow> playground" where
  "Playground K dimension n_holes n_orbs fov =
     \<lparr> xAxis = fst dimension, yAxis = snd dimension,
       grid = replicate (nat (snd dimension)) (replicate (nat (fst dimension)) (EMPTY K)),
       agent_start_positions = {}, num_holes = n_holes, num_orbs = n_orbs,
       playground.orb_positions = {}, playground.field_of_view = fov \<rparr>"

text \<open>
  \<open>Playground.is_valid_position\<close>. A position is a 2-tuple, which is never falsy, so
  the \<open>if not position\<close> guard (for \<open>None\<close>) has no branch here. Both comparisons are
  against \<open>self.xAxis\<close>, as in the source.
\<close>

fun is_valid_position :: "playground \<Rightarrow> position \<Rightarrow> bool" where
  "is_valid_position pg (x, y) =
     (if x < 0 \<or> xAxis pg \<le> x then False
      else if y < 0 \<or> xAxis pg \<le> y then False
      else True)"

text \<open>\<open>Playground.get_cell_state\<close>: \<open>x, y = position; return self.grid[y][x]\<close>.\<close>

fun get_cell_state :: "playground \<Rightarrow> position \<Rightarrow> py_error + string" where
  "get_cell_state pg (x, y) =
     (case py_getitem (grid pg) y of
        Inl e \<Rightarrow> Inl e
      | Inr row \<Rightarrow> py_getitem row x)"

text \<open>
  \<open>Playground.add_agent\<close>. The start position is recorded first; the label is then
  written with \<open>self.grid[x][y] = agent.get_label()\<close>, the indices in this order.
\<close>

definition add_agent :: "cell_tokens \<Rightarrow> playground \<Rightarrow> agent \<Rightarrow> py_error + (bool \<times> playground)" where
  "add_agent K pg ag =
     (if position ag \<in> agent_start_positions pg then Inr (False, pg)
      else case position ag of (x, y) \<Rightarrow>
        (case grid_setitem (grid pg) x y (get_label K ag) of
           Inl e \<Rightarrow> Inl e
         | Inr g \<Rightarrow> Inr (True, pg\<lparr>grid := g,
                      agent_start_positions := insert (position ag) (agent_start_positions pg)\<rparr>)))"

text \<open>
  \<open>Playground.place_holes_and_orbs\<close>. \<open>shuffle\<close> is the permutation \<open>random.shuffle\<close>
  applies to the free positions; \<open>put_tokens\<close> is \<open>self.grid[y][x] = token\<close> for the
  positions popped from the front of the list.
\<close>

fun put_tokens :: "string \<Rightarrow> position list \<Rightarrow> string list list \<Rightarrow> py_error + string list list" where
  "put_tokens token [] g = Inr g"
| "put_tokens token ((x, y) # ps) g =
     (case grid_setitem g y x token of
        Inl e \<Rightarrow> Inl e
      | Inr g1 \<Rightarrow> put_tokens token ps g1)"

definition place_holes_and_orbs ::
  "cell_tokens \<Rightarrow> (position list \<Rightarrow> position list) \<Rightarrow> playground \<Rightarrow> py_error + playground" where
  "place_holes_and_orbs K shuffle pg =
     (let available_positions =
            shuffle (concat (map (\<lambda>i. concat (map (\<lambda>j. if (i, j) \<notin> agent_start_positions pg
                                                          then [(i, j)] else [])
                                                [0 .. yAxis pg - 1]))
                                 [0 .. xAxis pg - 1]));
          holes = take (nat (num_holes pg)) available_positions;
          orbs = take (nat (num_orbs pg)) (drop (nat (num_holes pg)) available_positions)
      in case put_tokens (HOLE K) holes (grid pg) of
           Inl e \<Rightarrow> Inl e
         | Inr g1 \<Rightarrow>
             (case put_tokens (ORB K) orbs g1 of
                Inl e \<Rightarrow> Inl e
              | Inr g2 \<Rightarrow>
                  Inr (pg\<lparr>grid := g2,
                         playground.orb_positions := playground.orb_positions pg \<union> set orbs\<rparr>)))"

text \<open>
  \<open>Playground.get_surrounding_cells\<close>, with the field of view given. \<open>range(a, b + 1)\<close>
  is \<open>[a..b]\<close> and \<open>//\<close> is \<open>div\<close>. Python's \<open>or\<close> reads \<open>len(self.grid[0])\<close> only when
  \<open>0 \<le> i < len(self.grid)\<close>, so the grid has a row 0 whenever that length matters.
  \<open>collect\<close> gathers the cells of a comprehension, stopping at the first exception.
\<close>

fun collect :: "(py_error + 'a) list \<Rightarrow> py_error + 'a list" where
  "collect [] = Inr []"
| "collect (r # rs) =
     (case r of
        Inl e \<Rightarrow> Inl e
      | Inr v \<Rightarrow> (case collect rs of Inl e \<Rightarrow> Inl e | Inr vs \<Rightarrow> Inr (v # vs)))"

definition surrounding_cell :: "playground \<Rightarrow> int \<Rightarrow> int \<Rightarrow> py_error + string" where
  "surrounding_cell pg i j =
     (if i < 0 \<or> j < 0 \<or> int (length (grid pg)) \<le> i \<or> int (length (grid pg ! 0)) \<le> j
      then Inr ''out''
      else case py_getitem (grid pg) i of
             Inl e \<Rightarrow> Inl e
           | Inr row \<Rightarrow> py_getitem row j)"

fun get_surrounding_cells :: "playground \<Rightarrow> position \<Rightarrow> int \<Rightarrow> py_error + string list list" where
  "get_surrounding_cells pg (x, y) fov =
     collect (map (\<lambda>i. collect (map (\<lambda>j. surrounding_cell pg i j)
                                   [x - fov div 2 .. x + fov div 2]))
                  [y - fov div 2 .. y + fov div 2])"

text \<open>
  \<open>Playground.agent_exit_cell\<close>. \<open>exit_cell_state\<close> is the string its three statements
  leave in the cell: the label and doubled commas are replaced, an empty string
  becomes \<open>EMPTY\<close>, and then a trailing comma is cut. \<open>s[-1]\<close> on an empty string raises
  IndexError.
\<close>

definition exit_cell_state :: "cell_tokens \<Rightarrow> string \<Rightarrow> string \<Rightarrow> py_error + string" where
  "exit_cell_state K label current_cell_state =
     (let s1 = py_replace (py_replace current_cell_state label []) '',,'' '','';
          s2 = (if s1 = [] then EMPTY K else s1)
      in if s2 = [] then Inl IndexError
         else Inr (if last s2 = CHR '','' then butlast s2 else s2))"

definition agent_exit_cell :: "cell_tokens \<Rightarrow> playground \<Rightarrow> agent \<Rightarrow> py_error + playground" where
  "agent_exit_cell K pg ag =
     (case get_cell_state pg (position ag) of
        Inl e \<Rightarrow> Inl e
      | Inr current_cell_state \<Rightarrow>
          (case exit_cell_state K (get_label K ag) current_cell_state of
             Inl e \<Rightarrow> Inl e
           | Inr s \<Rightarrow>
               (case position ag of (x, y) \<Rightarrow>
                  (case grid_setitem (grid pg) y x s of
                     Inl e \<Rightarrow> Inl e
                   | Inr g \<Rightarrow> Inr (pg\<lparr>grid := g\<rparr>)))))"

text \<open>
  \<open>Playground.agent_enter_cell\<close>: the destination is read before the agent leaves its
  cell, and written after.
\<close>

definition agent_enter_cell ::
  "cell_tokens \<Rightarrow> playground \<Rightarrow> position \<Rightarrow> agent \<Rightarrow> py_error + (bool \<times> playground)" where
  "agent_enter_cell K pg pos ag =
     (if \<not> is_valid_position pg pos then Inr (False, pg)
      else case get_cell_state pg pos of
        Inl e \<Rightarrow> Inl e
      | Inr current_cell_state \<Rightarrow>
          (case agent_exit_cell K pg ag of
             Inl e \<Rightarrow> Inl e
           | Inr pg1 \<Rightarrow>
               (case pos of (x, y) \<Rightarrow>
                  (case grid_setitem (grid pg1) y x (current_cell_state @ '','' @ get_label K ag) of
                     Inl e \<Rightarrow> Inl e
                   | Inr g \<Rightarrow> Inr (True, pg1\<lparr>grid := g\<rparr>)))))"

text \<open>
  \<open>self.grid[y][x] = self.grid[y][x].replace(old, new)\<close>, the statement
  \<open>switch_orb_positions\<close> changes a token with.
\<close>

definition replace_in_cell ::
  "playground \<Rightarrow> position \<Rightarrow> string \<Rightarrow> string \<Rightarrow> py_error + playground" where
  "replace_in_cell pg pos old new =
     (case get_cell_state pg pos of
        Inl e \<Rightarrow> Inl e
      | Inr s \<Rightarrow>
          (case pos of (x, y) \<Rightarrow>
             (case grid_setitem (grid pg) y x (py_replace s old new) of
                Inl e \<Rightarrow> Inl e
              | Inr g \<Rightarrow> Inr (pg\<lparr>grid := g\<rparr>))))"


text \<open>
  \<open>Playground.switch_orb_positions\<close>. The random source is an input: for the orb the
  loop visits, \<open>d\<close> is the value of \<open>random.choice([UP, RIGHT, DOWN, LEFT])\<close> and \<open>prob\<close>
  the value of \<open>random.random()\<close>, as a real number. \<open>switch_orb\<close> is the body of the
  loop for one orb; its \<open>if\<close>/\<open>elif\<close> chain over the direction is \<open>get_new_position\<close>.
\<close>

definition switch_orb ::
  "cell_tokens \<Rightarrow> playground \<Rightarrow> position \<Rightarrow> direction \<times> real \<Rightarrow> py_error + playground" where
  "switch_orb K pg orb draw =
     (case draw of (d, prob) \<Rightarrow>
      if prob > 0.1 then Inr pg
      else let new_position = get_new_position d orb in
        if \<not> is_valid_position pg new_position then Inr pg
        else case get_cell_state pg new_position of
          Inl e \<Rightarrow> Inl e
        | Inr new_cell_label \<Rightarrow>
            if contains (ORB K) new_cell_label \<or> contains (FILLED_HOLE K) new_cell_label
            then Inr pg
            else if contains (EMPTY K) new_cell_label then
              (case replace_in_cell pg orb (ORB K) (EMPTY K) of
                 Inl e \<Rightarrow> Inl e
               | Inr pg1 \<Rightarrow>
                   (case replace_in_cell pg1 new_position (EMPTY K) (ORB K) of
                      Inl e \<Rightarrow> Inl e
                    | Inr pg2 \<Rightarrow>
                        if orb \<in> playground.orb_positions pg2
                        then Inr (pg2\<lparr>playground.orb_positions :=
                                     insert new_position (playground.orb_positions pg2 - {orb})\<rparr>)
                        else Inl KeyError))
            else if contains (HOLE K) new_cell_label then
              (case replace_in_cell pg orb (ORB K) (EMPTY K) of
                 Inl e \<Rightarrow> Inl e
               | Inr pg1 \<Rightarrow>
                   (case replace_in_cell pg1 new_position (HOLE K) (FILLED_HOLE K) of
                      Inl e \<Rightarrow> Inl e
                    | Inr pg2 \<Rightarrow>
                        if orb \<in> playground.orb_positions pg2
                        then Inr (pg2\<lparr>playground.orb_positions :=
                                     playground.orb_positions pg2 - {orb}\<rparr>)
                        else Inl KeyError))
            else Inr pg)"

text \<open>
  The loop over \<open>orb_position_temp\<close>, the copy of the registry made before the loop.
  \<open>switch_orbs\<close> runs the body for the orbs of a list, the \<open>k\<close>-th with the draws
  \<open>rnd k\<close>. Python fixes no order for iterating a set: \<open>iter\<close> is that order, a
  parameter, applied to the registry as it is when the method starts.
\<close>

fun switch_orbs ::
  "cell_tokens \<Rightarrow> playground \<Rightarrow> (nat \<Rightarrow> direction \<times> real) \<Rightarrow> nat \<Rightarrow> position list
     \<Rightarrow> py_error + playground" where
  "switch_orbs K pg rnd k [] = Inr pg"
| "switch_orbs K pg rnd k (orb # orbs) =
     (case switch_orb K pg orb (rnd k) of
        Inl e \<Rightarrow> Inl e
      | Inr pg1 \<Rightarrow> switch_orbs K pg1 rnd (Suc k) orbs)"

definition switch_orb_positions ::
  "cell_tokens \<Rightarrow> (position set \<Rightarrow> position list) \<Rightarrow> (nat \<Rightarrow> direction \<times> real) \<Rightarrow> playground
     \<Rightarrow> py_error + playground" where
  "switch_orb_positions K iter rnd pg =
     switch_orbs K pg rnd 0 (iter (playground.orb_positions pg))"

text \<open>\<open>Playground.place_orb\<close>. Of the agent it reads \<open>has_ball\<close> only.\<close>

definition place_orb ::
  "cell_tokens \<Rightarrow> (position set \<Rightarrow> position list) \<Rightarrow> (nat \<Rightarrow> direction \<times> real) \<Rightarrow> playground
     \<Rightarrow> position \<Rightarrow> agent \<Rightarrow> py_error + (bool \<times> playground)" where
  "place_orb K iter rnd pg pos ag =
     (if \<not> is_valid_position pg pos then Inr (False, pg)
      else if \<not> has_ball ag then Inr (False, pg)
      else case get_cell_state pg pos of
        Inl e \<Rightarrow> Inl e
      | Inr current_cell_state \<Rightarrow>
          if \<not> contains (HOLE K) current_cell_state then Inr (False, pg)
          else (case pos of (x, y) \<Rightarrow>
            (case grid_setitem (grid pg) y x
                    (py_replace current_cell_state (HOLE K) (FILLED_HOLE K)) of
               Inl e \<Rightarrow> Inl e
             | Inr g \<Rightarrow>
                 (case switch_orb_positions K iter rnd (pg\<lparr>grid := g\<rparr>) of
                    Inl e \<Rightarrow> Inl e
                  | Inr pg1 \<Rightarrow> Inr (True, pg1)))))"

section \<open>Agent (src/Agent.py)\<close>

text \<open>\<open>Agent.take_step_forward\<close>: the battery is spent before the move is tried.\<close>

definition take_step_forward ::
  "cell_tokens \<Rightarrow> agent \<Rightarrow> playground \<Rightarrow> py_error + (bool \<times> agent \<times> playground)" where
  "take_step_forward K ag pg =
     (let ag1 = ag\<lparr>battery := battery ag - 1\<rparr>;
          new_position = get_new_position (direction ag1) (position ag1)
      in case agent_enter_cell K pg new_position ag1 of
           Inl e \<Rightarrow> Inl e
         | Inr (entered, pg1) \<Rightarrow>
             Inr (True,
                  if entered
                  then ag1\<lparr>position := new_position,
                           visited_cell := insert new_position (visited_cell ag1)\<rparr>
                  else ag1,
                  pg1))"

text \<open>
  \<open>Agent.turn_clockwise\<close>: the next entry of \<open>directions = (UP, RIGHT, DOWN, LEFT)\<close>,
  cyclically.
\<close>

fun clockwise :: "direction \<Rightarrow> direction" where
  "clockwise UP = RIGHT"
| "clockwise RIGHT = DOWN"
| "clockwise DOWN = LEFT"
| "clockwise LEFT = UP"

definition turn_clockwise :: "agent \<Rightarrow> agent" where
  "turn_clockwise ag = ag\<lparr>direction := clockwise (direction ag)\<rparr>"

text \<open>
  \<open>while self.direction != goal: self.turn_clockwise()\<close>, the loop \<open>Agent.action\<close> turns
  with. \<open>turns_left\<close> counts the quarter turns from a direction to the goal and is
  the measure of its termination.
\<close>

fun quarter :: "direction \<Rightarrow> nat" where
  "quarter UP = 0"
| "quarter RIGHT = 1"
| "quarter DOWN = 2"
| "quarter LEFT = 3"

definition turns_left :: "direction \<Rightarrow> direction \<Rightarrow> nat" where
  "turns_left goal d = (quarter goal + 4 - quarter d) mod 4"

function turn_until :: "direction \<Rightarrow> agent \<Rightarrow> agent" where
  "turn_until goal ag = (if direction ag \<noteq> goal then turn_until goal (turn_clockwise ag) else ag)"
  by pat_completeness auto
termination
proof (relation "measure (\<lambda>(goal, ag). turns_left goal (direction ag))")
  show "wf (measure (\<lambda>(goal, ag). turns_left goal (direction ag)))" by simp
next
  fix goal :: direction and ag :: agent
  assume "direction ag \<noteq> goal"
  then show "((goal, turn_clockwise ag), (goal, ag))
      \<in> measure (\<lambda>(goal, ag). turns_left goal (direction ag))"
    by (cases goal; cases "direction ag") (simp_all add: turn_clockwise_def turns_left_def)
qed



text \<open>
  \<open>Agent.see\<close>: it stores the view and returns nothing (\<open>None\<close>). Here, as every
  method that changes the agent, it is the function from the agent before to the agent
  after.
\<close>

definition see :: "agent \<Rightarrow> string list list \<Rightarrow> agent" where
  "see ag cells = ag\<lparr>visibility := cells\<rparr>"

text \<open>
  \<open>Agent.update_item_positions\<close>. \<open>note_cell\<close> is the body of the two loops for the cell
  in row \<open>i\<close> and column \<open>j\<close> of the view, standing for the position \<open>env\<close>.
\<close>

definition note_cell :: "cell_tokens \<Rightarrow> position \<Rightarrow> string \<Rightarrow> agent \<Rightarrow> agent" where
  "note_cell K env cell ag =
     (let ag1 = (if contains (ORB K) cell \<and> env \<notin> set (agent.orb_positions ag)
                 then ag\<lparr>agent.orb_positions := agent.orb_positions ag @ [env]\<rparr> else ag);
          ag2 = (if contains (HOLE K) cell \<and> env \<notin> set (hole_positions ag1)
                 then ag1\<lparr>hole_positions := hole_positions ag1 @ [env]\<rparr> else ag1)
      in if contains (FILLED_HOLE K) cell
         then ag2\<lparr>filled_hole_positions := insert env (filled_hole_positions ag2)\<rparr>
         else ag2)"

definition update_item_positions :: "cell_tokens \<Rightarrow> agent \<Rightarrow> agent" where
  "update_item_positions K ag =
     (let top_left_x = fst (position ag) - agent.field_of_view ag div 2;
          top_left_y = snd (position ag) - agent.field_of_view ag div 2
      in fold (\<lambda>(i, row). fold (\<lambda>(j, cell). note_cell K (top_left_x + int j, top_left_y + int i) cell)
                                (enumerate 0 row))
              (enumerate 0 (visibility ag)) ag)"

text \<open>\<open>Agent.manhattan_distance\<close>.\<close>

definition manhattan_distance :: "position \<Rightarrow> position \<Rightarrow> int" where
  "manhattan_distance pos1 pos2 = \<bar>fst pos1 - fst pos2\<bar> + \<bar>snd pos1 - snd pos2\<bar>"

text \<open>
  \<open>min(xs, key=f)\<close> on a list that is not empty: the scan keeps the best element so
  far and replaces it only by one with a strictly smaller key.
\<close>

fun min_by_key :: "('a \<Rightarrow> int) \<Rightarrow> 'a \<Rightarrow> 'a list \<Rightarrow> 'a" where
  "min_by_key key best [] = best"
| "min_by_key key best (x # xs) = min_by_key key (if key x < key best then x else best) xs"

text \<open>
  \<open>Agent.find_nearest_target\<close>; it returns the target and the list as \<open>remove\<close> leaves
  it. \<open>min\<close> raises ValueError on an empty list.
\<close>

definition find_nearest_target :: "agent \<Rightarrow> position list \<Rightarrow> py_error + (position \<times> position list)" where
  "find_nearest_target ag target_list =
     (case target_list of
        [] \<Rightarrow> Inl ValueError
      | p # ps \<Rightarrow>
          (let nearest_target = min_by_key (\<lambda>pos. manhattan_distance (position ag) pos) p ps
           in Inr (nearest_target, remove1 nearest_target target_list)))"

text \<open>
  \<open>Agent.find_random_position\<close>. The random source is an input: \<open>draws k\<close> is the pair
  the two \<open>random.randint\<close> calls return in the \<open>k\<close>-th pass of \<open>while True\<close>. The loop
  has no bound, so it is a partial function whose value \<open>None\<close> stands for not
  returning. \<open>randint(0, n - 1)\<close> raises ValueError when \<open>n - 1 < 0\<close>.
\<close>

partial_function (option) first_unvisited :: "(nat \<Rightarrow> position) \<Rightarrow> position set \<Rightarrow> nat \<Rightarrow> position option" where
  "first_unvisited draws visited k =
     (if draws k \<notin> visited then Some (draws k) else first_unvisited draws visited (Suc k))"

definition find_random_position ::
  "agent \<Rightarrow> playground \<Rightarrow> (nat \<Rightarrow> position) \<Rightarrow> py_error + position option" where
  "find_random_position ag pg draws =
     (if xAxis pg - 1 < 0 \<or> yAxis pg - 1 < 0 then Inl ValueError
      else Inr (first_unvisited draws (visited_cell ag) 0))"

text \<open>
  \<open>Agent.update_target\<close>. \<open>target_list\<close> is the agent's own list, so what
  \<open>find_nearest_target\<close> removes is removed from \<open>hole_positions\<close> or \<open>orb_positions\<close>.
  The result \<open>Inr None\<close> stands for a random search that does not return.
\<close>

definition update_target ::
  "agent \<Rightarrow> playground \<Rightarrow> (nat \<Rightarrow> position) \<Rightarrow> py_error + agent option" where
  "update_target ag pg draws =
     (if target_position ag \<noteq> None \<and> is_a_random_target ag = False then Inr (Some ag)
      else let target_list = (if has_ball ag then hole_positions ag else agent.orb_positions ag)
        in if length target_list > 0 then
             (case find_nearest_target ag target_list of
                Inl e \<Rightarrow> Inl e
              | Inr (nearest, rest) \<Rightarrow>
                  Inr (Some ((if has_ball ag then ag\<lparr>hole_positions := rest\<rparr>
                              else ag\<lparr>agent.orb_positions := rest\<rparr>)
                             \<lparr>target_position := Some nearest, is_a_random_target := False\<rparr>)))
           else if is_a_random_target ag = False then
             (case find_random_position ag pg draws of
                Inl e \<Rightarrow> Inl e
              | Inr None \<Rightarrow> Inr None
              | Inr (Some p) \<Rightarrow>
                  Inr (Some (ag\<lparr>target_position := Some p, is_a_random_target := True\<rparr>)))
           else Inr (Some ag))"





text \<open>
  \<open>Agent.action\<close>. Unpacking \<open>self.target_position\<close> raises TypeError when it is
  \<open>None\<close>. \<open>Inr None\<close> stands for a turn that does not return, because the random
  search of \<open>update_target\<close> does not.
\<close>

definition face_target :: "agent \<Rightarrow> position \<Rightarrow> agent" where
  "face_target ag target =
     (case target of (target_x, target_y) \<Rightarrow>
        if fst (position ag) < target_x then turn_until RIGHT ag
        else if fst (position ag) > target_x then turn_until LEFT ag
        else if snd (position ag) < target_y then turn_until DOWN ag
        else if snd (position ag) > target_y then turn_until UP ag
        else ag)"


section \<open>Controller (src/Controller.py)\<close>

text \<open>
  The controller's playground and roster. The list \<open>draws\<close> of snapshots it keeps for
  the renderer is left out.
\<close>

record controller =
  playground :: playground
  agents :: "agent list"

text \<open>
  \<open>Controller.next_round\<close>, against src/Agent.py as it is. \<open>next_round_agents\<close> is the
  \<open>for\<close> loop: an agent with battery below 0 is passed over by \<open>continue\<close>; for any
  other agent the view is computed and \<open>agent.see(surrounding_cells).action(...)\<close> is
  evaluated, where \<open>see\<close> returns \<open>None\<close>, so that looking up \<open>action\<close> on it raises
  AttributeError. After the loop \<open>self.agents[0].get_all_agents_score()\<close> raises
  IndexError on an empty roster and AttributeError otherwise, since src/Agent.py
  has no such method.
\<close>

fun next_round_agents :: "playground \<Rightarrow> agent list \<Rightarrow> py_error + agent list" where
  "next_round_agents pg [] = Inr []"
| "next_round_agents pg (ag # ags) =
     (if battery ag < 0
      then (case next_round_agents pg ags of
              Inl e \<Rightarrow> Inl e
            | Inr ags1 \<Rightarrow> Inr (ag # ags1))
      else (case get_surrounding_cells pg (position ag) (agent.field_of_view ag) of
              Inl e \<Rightarrow> Inl e
            | Inr surrounding_cells \<Rightarrow> Inl AttributeError))"

definition next_round :: "controller \<Rightarrow> py_error + controller" where
  "next_round ctl =
     (case next_round_agents (playground ctl) (agents ctl) of
        Inl e \<Rightarrow> Inl e
      | Inr ags \<Rightarrow>
          (case agents ctl of
             [] \<Rightarrow> Inl IndexError
           | first_agent # others \<Rightarrow> Inl AttributeError))"

text \<open>
  The shape \<open>__init__\<close> gives the grid and every mutation keeps: \<open>yAxis\<close> rows of
  \<open>xAxis\<close> cells.
\<close>

definition rectangular :: "playground \<Rightarrow> bool" where
  "rectangular pg \<longleftrightarrow>
     length (grid pg) = nat (yAxis pg) \<and> (\<forall>row \<in> set (grid pg). length row = nat (xAxis pg))"

text \<open>
  Two notions for stating theorems, not part of the code. \<open>in_grid\<close> is the bounds
  check the spec words: \<open>0 \<le> x < width\<close> and \<open>0 \<le> y < height\<close>. \<open>put_cell\<close> is the
  playground with the cell of one position replaced and all else kept.
\<close>

fun in_grid :: "playground \<Rightarrow> position \<Rightarrow> bool" where
  "in_grid pg (x, y) \<longleftrightarrow> 0 \<le> x \<and> x < xAxis pg \<and> 0 \<le> y \<and> y < yAxis pg"

fun put_cell :: "playground \<Rightarrow> position \<Rightarrow> string \<Rightarrow> playground" where
  "put_cell pg (x, y) s = pg\<lparr>grid := (grid pg)[nat y := (grid pg ! nat y)[nat x := s]]\<rparr>"

section \<open>Sample data for closed theorems\<close>

text \<open>
  Token values to run the code on; consts.py is not among the sources. The general
  theorems hold for every choice of tokens.
\<close>

definition tokens :: cell_tokens where
  "tokens = \<lparr> EMPTY = ''empty'', HOLE = ''hole'', ORB = ''orb'',
              FILLED_HOLE = ''filled'', AGENT = ''agent'' \<rparr>"

text \<open>A grid five cells wide and three high, as \<open>Playground((5, 3))\<close> builds it.\<close>

definition wide_playground :: playground where
  "wide_playground = Playground tokens (5, 3) 0 0 3"

text \<open>A two by two grid with one orb at position \<open>(1, 0)\<close>.\<close>

definition small_playground :: playground where
  "small_playground =
     (Playground tokens (2, 2) 0 1 3)
       \<lparr> grid := [[''empty'', ''orb''], [''empty'', ''empty'']],
         playground.orb_positions := {(1, 0)} \<rparr>"

text \<open>A three by three grid, as \<open>Playground((3, 3))\<close> builds it.\<close>

definition square_playground :: playground where
  "square_playground = Playground tokens (3, 3) 0 0 3"

text \<open>
  The agent \<open>Agent(agent_id, position)\<close> builds with the default field of view 3 and
  battery 30.
\<close>

definition agent_at :: "string \<Rightarrow> position \<Rightarrow> agent" where
  "agent_at aid pos =
     \<lparr> agent_id = aid, position = pos, field_of_view = 3,
       visibility = [[''empty'', ''empty'', ''empty''],
                     [''empty'', ''agent-'' @ aid, ''empty''],
                     [''empty'', ''empty'', ''empty'']],
       visited_cell = {pos}, direction = UP, battery = 30, has_ball = False,
       hole_positions = [], orb_positions = [], target_position = None,
       is_a_random_target = False, filled_hole_positions = {} \<rparr>"

text \<open>
  An agent at \<open>(2, 2)\<close> that knows four orbs, in this order: one straight below it and
  one straight to its right, both two cells away, then two at distance 1; and three
  holes, the nearest one last.
\<close>

definition scout :: agent where
  "scout = (agent_at ''a1'' (2, 2))
     \<lparr>agent.orb_positions := [(2, 4), (4, 2), (1, 2), (2, 1)],
      hole_positions := [(2, 0), (4, 2), (3, 2)]\<rparr>"

text \<open>
  A three by three grid on which agent a1 stands on a hole at \<open>(0, 0)\<close>, next to the one
  orb at \<open>(1, 0)\<close>, which has an empty cell to its right and a filled hole below; and
  that agent, carrying an orb.
\<close>

definition orb_playground :: playground where
  "orb_playground =
     (Playground tokens (3, 3) 2 1 3)
       \<lparr> grid := [[''hole,agent-a1'', ''orb'', ''empty''],
                  [''empty'', ''filled'', ''empty''],
                  [''empty'', ''empty'', ''empty'']],
         playground.orb_positions := {(1, 0)} \<rparr>"

definition carrier :: agent where
  "carrier = (agent_at ''a1'' (0, 0))\<lparr>has_ball := True, hole_positions := [(0, 0)]\<rparr>"

text \<open>
  Two turns of one agent that starts at \<open>(0, 0)\<close> beside the only orb, at \<open>(1, 0)\<close>, on
  the three by three grid. \<open>orb_first\<close> is a shuffle that puts \<open>(1, 0)\<close> first,
  \<open>registry_order\<close> an iteration order of the registry, \<open>still_draws\<close> random draws
  under which no orb moves, \<open>corner_draws\<close> random positions. \<open>pickup_added\<close> is the
  playground after \<open>add_agent\<close> and \<open>pickup_playground0\<close> after \<open>place_holes_and_orbs\<close>;
  \<open>pickup_view0\<close> is what the agent sees there. \<open>pickup_agent1\<close> and \<open>pickup_playground1\<close>
  are the agent and the playground after its first turn (\<open>see\<close>, then \<open>action\<close>),
  \<open>pickup_view1\<close> what it sees then, \<open>pickup_agent2\<close> and \<open>pickup_playground2\<close> the state
  after its second turn.
\<close>

definition orb_first :: "position list \<Rightarrow> position list" where
  "orb_first ps = (1, 0) # remove1 (1, 0) ps"




definition pickup_added :: playground where
  "pickup_added =
     (Playground tokens (3, 3) 0 1 3)
       \<lparr> grid := [[''agent-a1'', ''empty'', ''empty''],
                  [''empty'', ''empty'', ''empty''],
                  [''empty'', ''empty'', ''empty'']],
         agent_start_positions := {(0, 0)} \<rparr>"

definition pickup_playground0 :: playground where
  "pickup_playground0 =
     pickup_added
       \<lparr> grid := [[''agent-a1'', ''orb'', ''empty''],
                  [''empty'', ''empty'', ''empty''],
                  [''empty'', ''empty'', ''empty'']],
         playground.orb_positions := {(1, 0)} \<rparr>"







text \<open>
  Two grids that are not square, each with one orb at \<open>(0, 2)\<close>: one five cells wide and
  three high, where the orb lies in the bottom row, and one three cells wide and five
  high, which also has a hole at \<open>(0, 4)\<close>.
\<close>

definition wide_orb_playground :: playground where
  "wide_orb_playground =
     (Playground tokens (5, 3) 0 1 3)
       \<lparr> grid := [[''empty'', ''empty'', ''empty'', ''empty'', ''empty''],
                  [''empty'', ''empty'', ''empty'', ''empty'', ''empty''],
                  [''orb'', ''empty'', ''empty'', ''empty'', ''empty'']],
         playground.orb_positions := {(0, 2)} \<rparr>"

definition tall_orb_playground :: playground where
  "tall_orb_playground =
     (Playground tokens (3, 5) 1 1 3)
       \<lparr> grid := [[''empty'', ''empty'', ''empty''],
                  [''empty'', ''empty'', ''empty''],
                  [''orb'', ''empty'', ''empty''],
                  [''empty'', ''empty'', ''empty''],
                  [''hole'', ''empty'', ''empty'']],
         playground.orb_positions := {(0, 2)} \<rparr>"

text \<open>The iteration order of a registry that holds \<open>(0, 2)\<close> only.\<close>

definition bottom_order :: "position set \<Rightarrow> position list" where
  "bottom_order S = (if (0, 2) \<in> S then [(0, 2)] else [])"

text \<open>Random draws that try to move every orb down.\<close>

definition down_draws :: "nat \<Rightarrow> direction \<times> real" where
  "down_draws k = (DOWN, 0.05)"

section \<open>Bounds checks\<close>

lemma py_index_cases:
  "py_index n i = (if - int n \<le> i \<and> i < int n then Inr (nat (i mod int n)) else Inl IndexError)"
proof (cases "i < 0")
  case True
  show ?thesis
  proof (cases "- int n \<le> i")
    case True
    with \<open>i < 0\<close> have "i mod int n = i + int n"
      by (smt (verit) mod_pos_pos_trivial mod_add_self2)
    with True \<open>i < 0\<close> show ?thesis by (simp add: py_index_def)
  next
    case False
    with \<open>i < 0\<close> show ?thesis by (simp add: py_index_def)
  qed
next
  case False
  then show ?thesis by (simp add: py_index_def)
qed

declare get_cell_state.simps [simp del]

lemma is_valid_position_iff:
  "is_valid_position pg (x, y) \<longleftrightarrow> 0 \<le> x \<and> x < xAxis pg \<and> 0 \<le> y \<and> y < xAxis pg"
  by auto

declare is_valid_position.simps [simp del]

lemma get_cell_state_in_grid:
  assumes "rectangular pg" and "0 \<le> x" and "x < xAxis pg" and "0 \<le> y" and "y < yAxis pg"
  shows "get_cell_state pg (x, y) = Inr (grid pg ! nat y ! nat x)"
proof -
  from assms have y: "nat y < length (grid pg)"
    by (simp add: rectangular_def)
  then have "grid pg ! nat y \<in> set (grid pg)" by simp
  with assms(1) have "length (grid pg ! nat y) = nat (xAxis pg)"
    by (simp add: rectangular_def)
  with assms y show ?thesis
    by (simp add: get_cell_state.simps py_getitem_def py_index_def)
qed

text \<open>
  C1. The claim: \<open>is_valid_position\<close> holds exactly for \<open>0 \<le> x < width\<close> and
  \<open>0 \<le> y < height\<close>, so on a grid that is not square a position with
  \<open>height \<le> y < width\<close> is rejected. The code compares \<open>y\<close> with the width: on the grid
  of width 5 and height 3 the position \<open>(0, 4)\<close>, below the last row, is accepted, and
  reading its cell raises IndexError.
\<close>

theorem is_valid_position_accepts_row_below_grid:
  "xAxis wide_playground = 5 \<and> yAxis wide_playground = 3 \<and>
   is_valid_position wide_playground (0, 4) = True \<and>
   get_cell_state wide_playground (0, 4) = Inl IndexError"
  by (simp add: wide_playground_def tokens_def Playground_def is_valid_position_iff
      get_cell_state.simps py_getitem_def py_index_def)

text \<open>
  C2, as the claim states it, fails: \<open>get_cell_state\<close> has no bounds check of its own, and
  Python's negative indices wrap. On the two by two grid the position \<open>(-1, 0)\<close> is
  out of bounds and reads the cell of \<open>(1, 0)\<close>.
\<close>

theorem get_cell_state_wraps_negative:
  "\<not> is_valid_position small_playground (-1, 0) \<and>
   get_cell_state small_playground (-1, 0) = Inr ''orb'' \<and>
   get_cell_state small_playground (1, 0) = Inr ''orb''"
  by (simp add: small_playground_def Playground_def is_valid_position_iff
      get_cell_state.simps py_getitem_def py_index_def)

text \<open>
  C2, amended. \<open>get_cell_state\<close> is the unchecked read \<open>grid[y][x]\<close>: on a grid of
  \<open>height\<close> rows of \<open>width\<close> cells it raises IndexError exactly when \<open>x\<close> is outside
  \<open>-width \<le> x < width\<close> or \<open>y\<close> is outside \<open>-height \<le> y < height\<close>; otherwise it returns
  the cell at \<open>(x mod width, y mod height)\<close>, which is the cell of \<open>(x, y)\<close> itself for
  an in-bounds position and the cell counted from the far edge for a negative
  coordinate.
\<close>

theorem get_cell_state_python_indexing:
  assumes "rectangular pg"
  shows "get_cell_state pg (x, y) =
     (if - yAxis pg \<le> y \<and> y < yAxis pg \<and> - xAxis pg \<le> x \<and> x < xAxis pg
      then Inr (grid pg ! nat (y mod yAxis pg) ! nat (x mod xAxis pg))
      else Inl IndexError)"
proof -
  from assms have len: "length (grid pg) = nat (yAxis pg)"
    and rows: "\<And>row. row \<in> set (grid pg) \<Longrightarrow> length row = nat (xAxis pg)"
    by (simp_all add: rectangular_def)
  show ?thesis
  proof (cases "- yAxis pg \<le> y \<and> y < yAxis pg")
    case False
    then have "\<not> (- int (length (grid pg)) \<le> y \<and> y < int (length (grid pg)))"
      using len by auto
    then show ?thesis using False
      by (auto simp add: get_cell_state.simps py_getitem_def py_index_cases)
  next
    case True
    then have pos: "0 < yAxis pg" by linarith
    then have ilen: "int (length (grid pg)) = yAxis pg" using len by simp
    have "0 \<le> y mod yAxis pg" "y mod yAxis pg < yAxis pg"
      using pos by simp_all
    then have inb: "nat (y mod yAxis pg) < length (grid pg)" using len by linarith
    then have "grid pg ! nat (y mod yAxis pg) \<in> set (grid pg)" by simp
    then have rlen: "length (grid pg ! nat (y mod yAxis pg)) = nat (xAxis pg)"
      by (rule rows)
    have row: "py_getitem (grid pg) y = Inr (grid pg ! nat (y mod yAxis pg))"
      using True ilen by (simp add: py_getitem_def py_index_cases)
    show ?thesis
    proof (cases "- xAxis pg \<le> x \<and> x < xAxis pg")
      case False
      then have "\<not> (- int (nat (xAxis pg)) \<le> x \<and> x < int (nat (xAxis pg)))" by auto
      then show ?thesis using False True row rlen
        by (auto simp add: get_cell_state.simps py_getitem_def py_index_cases)
    next
      case inx: True
      then have "0 < xAxis pg" by linarith
      then have "int (nat (xAxis pg)) = xAxis pg" by simp
      then show ?thesis using inx True row rlen
        by (simp add: get_cell_state.simps py_getitem_def py_index_cases)
    qed
  qed
qed

theorem get_cell_state_python_indexing_witness:
  "rectangular small_playground \<and>
   get_cell_state small_playground (1, 0) = Inr ''orb'' \<and>
   get_cell_state small_playground (-1, -2) = Inr ''orb'' \<and>
   get_cell_state small_playground (2, 0) = Inl IndexError \<and>
   get_cell_state small_playground (0, -3) = Inl IndexError"
proof -
  have r: "rectangular small_playground"
    by (simp add: rectangular_def small_playground_def Playground_def)
  have g: "grid small_playground = [[''empty'', ''orb''], [''empty'', ''empty'']]"
    "xAxis small_playground = 2" "yAxis small_playground = 2"
    by (simp_all add: small_playground_def Playground_def)
  show ?thesis
    using r get_cell_state_python_indexing [OF r, of 1 0]
      get_cell_state_python_indexing [OF r, of "-1" "-2"]
      get_cell_state_python_indexing [OF r, of 2 0]
      get_cell_state_python_indexing [OF r, of 0 "-3"]
    by (simp add: g)
qed

section \<open>Adding an agent\<close>

lemmas py_defs = py_getitem_def py_setitem_def py_index_def grid_setitem_def py_replace_def

lemma agent_at_init: "Agent tokens aid pos 3 30 = Inr (agent_at aid pos)"
  by (simp add: Agent_def agent_at_def tokens_def grid_setitem_def py_setitem_def py_index_def
      get_label_def Let_def eval_nat_numeral)

lemma add_agent_collision:
  "position ag \<in> agent_start_positions pg \<Longrightarrow> add_agent K pg ag = Inr (False, pg)"
  by (simp add: add_agent_def)

text \<open>
  C4. The claim: a new start position makes \<open>add_agent\<close> return True and register the
  agent's label at exactly that grid position. The code writes \<open>grid[x][y]\<close>, while
  every reader, \<open>get_cell_state\<close> first, uses \<open>grid[y][x]\<close>: on the three by three grid the
  agent that starts at \<open>(2, 0)\<close> is added, the cell of \<open>(2, 0)\<close> still reads \<open>EMPTY\<close>, and
  the label sits in the cell of \<open>(0, 2)\<close>.
\<close>

theorem add_agent_writes_transposed_cell:
  "position (agent_at ''a1'' (2, 0)) = (2, 0) \<and>
   (case add_agent tokens square_playground (agent_at ''a1'' (2, 0)) of
      Inl e \<Rightarrow> False
    | Inr (added, pg) \<Rightarrow>
        added \<and> get_cell_state pg (2, 0) = Inr ''empty'' \<and>
        get_cell_state pg (0, 2) = Inr ''agent-a1'')"
  by (simp add: add_agent_def square_playground_def Playground_def tokens_def agent_at_def
      get_label_def get_cell_state.simps py_defs)

section \<open>Entering and leaving a cell\<close>

text \<open>
  C9. The claim: \<open>agent_exit_cell\<close> reverts the cell to \<open>EMPTY\<close> when no terrain and no
  occupant remain. The code tests for the empty string before it cuts the trailing
  comma. On the three by three grid agent a1 starts at \<open>(1, 1)\<close> (so \<open>add_agent\<close> leaves
  the bare label there), agent b1 enters that cell from \<open>(0, 1)\<close>, a1 moves on to
  \<open>(2, 1)\<close>, which leaves \<open>,agent-b1\<close>, and when b1 exits the cell holds the empty string,
  not \<open>EMPTY\<close>.
\<close>

theorem agent_exit_cell_leaves_empty_string:
  "(case add_agent tokens square_playground (agent_at ''a1'' (1, 1)) of
      Inl e \<Rightarrow> False
    | Inr (added, pg1) \<Rightarrow>
    (case agent_enter_cell tokens pg1 (1, 1) (agent_at ''b1'' (0, 1)) of
      Inl e \<Rightarrow> False
    | Inr (entered_b, pg2) \<Rightarrow>
    (case agent_enter_cell tokens pg2 (2, 1) (agent_at ''a1'' (1, 1)) of
      Inl e \<Rightarrow> False
    | Inr (entered_a, pg3) \<Rightarrow>
    (case agent_exit_cell tokens pg3 (agent_at ''b1'' (1, 1)) of
      Inl e \<Rightarrow> False
    | Inr pg4 \<Rightarrow>
        added \<and> entered_b \<and> entered_a \<and>
        get_cell_state pg2 (1, 1) = Inr ''agent-a1,agent-b1'' \<and>
        get_cell_state pg3 (1, 1) = Inr '',agent-b1'' \<and>
        get_cell_state pg4 (1, 1) = Inr '''' \<and>
        EMPTY tokens = ''empty''))))"
  by (simp add: add_agent_def agent_enter_cell_def agent_exit_cell_def exit_cell_state_def
      square_playground_def Playground_def tokens_def agent_at_def is_valid_position_iff
      get_label_def get_cell_state.simps py_defs Let_def)

section \<open>Stepping forward\<close>







section \<open>The field of view\<close>

lemma collect_Inr_cong:
  "(\<And>i. i \<in> set xs \<Longrightarrow> g i = Inr (f i)) \<Longrightarrow> collect (map g xs) = Inr (map f xs)"
  by (induction xs) simp_all

lemma surrounding_cell_rectangular:
  assumes "rectangular pg"
  shows "surrounding_cell pg i j =
    Inr (if 0 \<le> j \<and> j < xAxis pg \<and> 0 \<le> i \<and> i < yAxis pg
         then grid pg ! nat i ! nat j else ''out'')"
proof -
  from assms have len: "length (grid pg) = nat (yAxis pg)"
    and rows: "\<And>row. row \<in> set (grid pg) \<Longrightarrow> length row = nat (xAxis pg)"
    by (simp_all add: rectangular_def)
  show ?thesis
  proof (cases "0 \<le> i \<and> i < yAxis pg")
    case False
    then show ?thesis using len by (auto simp add: surrounding_cell_def)
  next
    case True
    then have i: "nat i < length (grid pg)" using len by linarith
    then have "0 < length (grid pg)" by linarith
    then have "grid pg ! 0 \<in> set (grid pg)" by simp
    then have l0: "length (grid pg ! 0) = nat (xAxis pg)" by (rule rows)
    from i have "grid pg ! nat i \<in> set (grid pg)" by simp
    then have li: "length (grid pg ! nat i) = nat (xAxis pg)" by (rule rows)
    show ?thesis
    proof (cases "0 \<le> j \<and> j < xAxis pg")
      case False
      then show ?thesis using True len l0 by (auto simp add: surrounding_cell_def)
    next
      case inj: True
      then show ?thesis using True len l0 li i
        by (simp add: surrounding_cell_def py_getitem_def py_index_def)
    qed
  qed
qed

text \<open>
  C8. On a grid of \<open>yAxis\<close> rows of \<open>xAxis\<close> cells and for a field of view \<open>fov \<ge> 0\<close>,
  \<open>get_surrounding_cells\<close> returns a square window whose side is \<open>fov\<close> when \<open>fov\<close> is
  odd and \<open>fov + 1\<close> when it is even. Its entry in row \<open>r\<close> and column \<open>c\<close> stands for
  the coordinate \<open>(x - fov div 2 + c, y - fov div 2 + r)\<close>: it is the sentinel \<open>out\<close>
  when that coordinate is outside \<open>[0, width) \<times> [0, height)\<close> and the grid's cell
  state there, as \<open>get_cell_state\<close> reads it, when it is inside. The middle entry
  stands for the position itself.
\<close>

theorem get_surrounding_cells_window:
  assumes "rectangular pg" and "0 \<le> fov"
  shows "\<exists>w. get_surrounding_cells pg (x, y) fov = Inr w \<and>
     int (length w) = (if odd fov then fov else fov + 1) \<and>
     (\<forall>r < length w. length (w ! r) = length w \<and>
        (\<forall>c < length w.
           w ! r ! c =
             (if 0 \<le> x - fov div 2 + int c \<and> x - fov div 2 + int c < xAxis pg \<and>
                 0 \<le> y - fov div 2 + int r \<and> y - fov div 2 + int r < yAxis pg
              then grid pg ! nat (y - fov div 2 + int r) ! nat (x - fov div 2 + int c)
              else ''out'') \<and>
           (0 \<le> x - fov div 2 + int c \<and> x - fov div 2 + int c < xAxis pg \<and>
            0 \<le> y - fov div 2 + int r \<and> y - fov div 2 + int r < yAxis pg \<longrightarrow>
              get_cell_state pg (x - fov div 2 + int c, y - fov div 2 + int r)
                = Inr (w ! r ! c)))) \<and>
     nat (fov div 2) < length w \<and>
     x - fov div 2 + int (nat (fov div 2)) = x \<and>
     y - fov div 2 + int (nat (fov div 2)) = y"
proof -
  let ?h = "fov div 2"
  let ?cell = "\<lambda>i j. if 0 \<le> j \<and> j < xAxis pg \<and> 0 \<le> i \<and> i < yAxis pg
                      then grid pg ! nat i ! nat j else ''out''"
  let ?w = "map (\<lambda>i. map (\<lambda>j. ?cell i j) [x - ?h .. x + ?h]) [y - ?h .. y + ?h]"
  have h0: "0 \<le> ?h" using assms(2) by simp
  have row: "collect (map (\<lambda>j. surrounding_cell pg i j) js) = Inr (map (\<lambda>j. ?cell i j) js)"
    for i js
    by (rule collect_Inr_cong) (simp add: surrounding_cell_rectangular [OF assms(1)])
  have eq: "get_surrounding_cells pg (x, y) fov = Inr ?w"
    unfolding get_surrounding_cells.simps by (rule collect_Inr_cong) (rule row)
  have side: "int (length ?w) = (if odd fov then fov else fov + 1)"
    using assms(2) by (auto elim!: oddE evenE)
  have nth_rc: "?w ! r ! c = ?cell (y - ?h + int r) (x - ?h + int c)"
    if "r < length ?w" "c < length ?w" for r c
    using that by (simp del: upto.simps)
  show ?thesis
  proof (intro exI conjI allI impI)
    show "get_surrounding_cells pg (x, y) fov = Inr ?w" by (rule eq)
    show "int (length ?w) = (if odd fov then fov else fov + 1)" by (rule side)
  next
    fix r assume "r < length ?w"
    then show "length (?w ! r) = length ?w" by (simp del: upto.simps)
  next
    fix r c assume rc: "r < length ?w" "c < length ?w"
    then show "?w ! r ! c = ?cell (y - ?h + int r) (x - ?h + int c)"
      by (rule nth_rc)
  next
    fix r c assume rc: "r < length ?w" "c < length ?w"
      and inb: "0 \<le> x - ?h + int c \<and> x - ?h + int c < xAxis pg \<and>
            0 \<le> y - ?h + int r \<and> y - ?h + int r < yAxis pg"
    have "get_cell_state pg (x - ?h + int c, y - ?h + int r) =
        Inr (grid pg ! nat (y - ?h + int r) ! nat (x - ?h + int c))"
      using inb by (simp add: get_cell_state_in_grid [OF assms(1)])
    then show "get_cell_state pg (x - ?h + int c, y - ?h + int r) = Inr (?w ! r ! c)"
      using inb nth_rc [OF rc] by simp
  next
    show "nat ?h < length ?w" using h0 by simp
    show "x - ?h + int (nat ?h) = x" using h0 by simp
    show "y - ?h + int (nat ?h) = y" using h0 by simp
  qed
qed

theorem get_surrounding_cells_window_witness:
  "rectangular small_playground \<and> (0::int) \<le> 2 \<and>
   get_surrounding_cells small_playground (0, 0) 2 =
     Inr [[''out'', ''out'', ''out''], [''out'', ''empty'', ''orb''], [''out'', ''empty'', ''empty'']]"
proof -
  have r: "rectangular small_playground"
    by (simp add: rectangular_def small_playground_def Playground_def)
  have g: "grid small_playground = [[''empty'', ''orb''], [''empty'', ''empty'']]"
    "xAxis small_playground = 2" "yAxis small_playground = 2"
    by (simp_all add: small_playground_def Playground_def)
  from get_surrounding_cells_window [OF r, of 2 0 0]
  obtain w where w: "get_surrounding_cells small_playground (0, 0) 2 = Inr w"
    and len: "int (length w) = 3"
    and cells: "\<forall>r < length w. length (w ! r) = length w \<and>
        (\<forall>c < length w. w ! r ! c =
             (if 0 \<le> 0 - 2 div 2 + int c \<and> 0 - 2 div 2 + int c < xAxis small_playground \<and>
                 0 \<le> 0 - 2 div 2 + int r \<and> 0 - 2 div 2 + int r < yAxis small_playground
              then grid small_playground ! nat (0 - 2 div 2 + int r) ! nat (0 - 2 div 2 + int c)
              else ''out''))"
    by auto
  from len have l3: "length w = 3" by simp
  have rows: "length (w ! 0) = 3" "length (w ! 1) = 3" "length (w ! 2) = 3"
    using cells l3 by simp_all
  have e: "w ! 0 ! 0 = ''out''" "w ! 0 ! 1 = ''out''" "w ! 0 ! 2 = ''out''"
    "w ! 1 ! 0 = ''out''" "w ! 1 ! 1 = ''empty''" "w ! 1 ! 2 = ''orb''"
    "w ! 2 ! 0 = ''out''" "w ! 2 ! 1 = ''empty''" "w ! 2 ! 2 = ''empty''"
    using cells l3 by (simp_all add: g)
  have three: "xs = [xs ! 0, xs ! 1, xs ! 2]" if "length xs = 3" for xs :: "'a list"
    using that by (auto simp add: list_eq_iff_nth_eq nth_Cons' eval_nat_numeral less_Suc_eq)
  have "w = [[''out'', ''out'', ''out''], [''out'', ''empty'', ''orb''], [''out'', ''empty'', ''empty'']]"
    using three [OF l3] three [OF rows(1)] three [OF rows(2)] three [OF rows(3)] e
    by simp
  with w r show ?thesis by simp
qed

section \<open>Choosing a target\<close>

lemma min_by_key_first:
  "\<exists>ys zs. best # xs = ys @ min_by_key key best xs # zs \<and>
     (\<forall>y \<in> set ys. key (min_by_key key best xs) < key y) \<and>
     (\<forall>z \<in> set zs. key (min_by_key key best xs) \<le> key z)"
proof (induction xs arbitrary: best)
  case Nil
  have "[best] = [] @ min_by_key key best [] # []" by simp
  then show ?case by fastforce
next
  case (Cons x xs)
  let ?m = "min_by_key key best (x # xs)"
  show ?case
  proof (cases "key x < key best")
    case True
    then have m: "?m = min_by_key key x xs" by simp
    from Cons.IH [of x] obtain ys zs where s: "x # xs = ys @ min_by_key key x xs # zs"
      and before: "\<forall>y \<in> set ys. key (min_by_key key x xs) < key y"
      and after: "\<forall>z \<in> set zs. key (min_by_key key x xs) \<le> key z"
      by blast
    have "key (min_by_key key x xs) \<le> key x"
    proof (cases ys)
      case Nil
      from s have "x = min_by_key key x xs"
        unfolding Nil by (metis append_Nil list.inject)
      then show ?thesis by (metis order_refl)
    next
      case (Cons y ys')
      with s have "x \<in> set ys" by simp
      with before show ?thesis by force
    qed
    with True have "key (min_by_key key x xs) < key best" by simp
    with before have "\<forall>y \<in> set (best # ys). key ?m < key y" using m by simp
    moreover have "best # x # xs = (best # ys) @ ?m # zs" using s m by simp
    ultimately show ?thesis using after m by metis
  next
    case False
    then have m: "?m = min_by_key key best xs" by simp
    from Cons.IH [of best] obtain ys zs where s: "best # xs = ys @ min_by_key key best xs # zs"
      and before: "\<forall>y \<in> set ys. key (min_by_key key best xs) < key y"
      and after: "\<forall>z \<in> set zs. key (min_by_key key best xs) \<le> key z"
      by blast
    show ?thesis
    proof (cases ys)
      case Nil
      from s have "best = min_by_key key best xs \<and> xs = zs"
        unfolding Nil by (metis append_Nil list.inject)
      then have b: "min_by_key key best xs = best" and z: "zs = xs" by metis+
      have "best # x # xs = [] @ ?m # (x # xs)" using m b by simp
      moreover have "\<forall>z \<in> set (x # xs). key ?m \<le> key z" using after z m b False by auto
      ultimately show ?thesis by (metis empty_iff list.set(1))
    next
      case c: (Cons y ys')
      from s have "best = y \<and> xs = ys' @ min_by_key key best xs # zs"
        unfolding c by (metis append_Cons list.inject)
      then have y: "y = best" and xs: "xs = ys' @ min_by_key key best xs # zs" by metis+
      have "best \<in> set ys" unfolding c y by simp
      with before have "key (min_by_key key best xs) < key best" by blast
      with False have lt: "key (min_by_key key best xs) < key x" by simp
      have "best # x # xs = (best # x # ys') @ ?m # zs" using xs m by simp
      moreover have "\<forall>y \<in> set (best # x # ys'). key ?m < key y"
        using before c y lt m by auto
      ultimately show ?thesis using after m by metis
    qed
  qed
qed

lemma remove1_split: "m \<notin> set ys \<Longrightarrow> remove1 m (ys @ m # zs) = ys @ zs"
  by (induction ys) auto

lemma find_nearest_target_first:
  assumes "target_list \<noteq> []"
  shows "\<exists>ys t zs. target_list = ys @ t # zs \<and>
     (\<forall>p \<in> set ys. manhattan_distance (position ag) t < manhattan_distance (position ag) p) \<and>
     (\<forall>p \<in> set zs. manhattan_distance (position ag) t \<le> manhattan_distance (position ag) p) \<and>
     find_nearest_target ag target_list = Inr (t, ys @ zs)"
proof -
  from assms obtain p ps where tl: "target_list = p # ps" by (cases target_list) auto
  let ?key = "\<lambda>pos. manhattan_distance (position ag) pos"
  let ?t = "min_by_key ?key p ps"
  from min_by_key_first [of p ps ?key] obtain ys zs where s: "p # ps = ys @ ?t # zs"
    and before: "\<forall>y \<in> set ys. ?key ?t < ?key y" and after: "\<forall>z \<in> set zs. ?key ?t \<le> ?key z"
    by blast
  from before have "?t \<notin> set ys" by auto
  then have "remove1 ?t (ys @ ?t # zs) = ys @ zs" by (rule remove1_split)
  with s have "remove1 ?t (p # ps) = ys @ zs" by simp
  then have "find_nearest_target ag (p # ps) = Inr (?t, ys @ zs)"
    by (simp add: find_nearest_target_def)
  with tl s before after show ?thesis by blast
qed

text \<open>
  C7. When a target that is not a random fallback is set, \<open>update_target\<close> changes
  nothing. When the agent has no target or a random one and the list it chooses from
  (the known holes if it carries an orb, the known orbs if not) is not empty, the new
  target \<open>t\<close> is an element of that list such that, with the distance of a candidate
  \<open>p\<close> from the agent's position \<open>a\<close> being \<open>|fst a - fst p| + |snd a - snd p|\<close>, every
  candidate before \<open>t\<close> in discovery order is strictly farther and every candidate
  after it is at least as far; \<open>t\<close> is removed from that list at this place, the
  target is marked as not random, and nothing else changes, the other list included.
\<close>

theorem update_target_nearest_first:
  "(target_position ag \<noteq> None \<and> \<not> is_a_random_target ag \<longrightarrow>
      update_target ag pg draws = Inr (Some ag)) \<and>
   ((target_position ag = None \<or> is_a_random_target ag) \<and> has_ball ag \<and> hole_positions ag \<noteq> [] \<longrightarrow>
      (\<exists>ys t zs. hole_positions ag = ys @ t # zs \<and>
         (\<forall>p \<in> set ys. \<bar>fst (position ag) - fst t\<bar> + \<bar>snd (position ag) - snd t\<bar>
                        < \<bar>fst (position ag) - fst p\<bar> + \<bar>snd (position ag) - snd p\<bar>) \<and>
         (\<forall>p \<in> set zs. \<bar>fst (position ag) - fst t\<bar> + \<bar>snd (position ag) - snd t\<bar>
                        \<le> \<bar>fst (position ag) - fst p\<bar> + \<bar>snd (position ag) - snd p\<bar>) \<and>
         update_target ag pg draws =
           Inr (Some (ag\<lparr>hole_positions := ys @ zs, target_position := Some t,
                         is_a_random_target := False\<rparr>)))) \<and>
   ((target_position ag = None \<or> is_a_random_target ag) \<and> \<not> has_ball ag \<and>
      agent.orb_positions ag \<noteq> [] \<longrightarrow>
      (\<exists>ys t zs. agent.orb_positions ag = ys @ t # zs \<and>
         (\<forall>p \<in> set ys. \<bar>fst (position ag) - fst t\<bar> + \<bar>snd (position ag) - snd t\<bar>
                        < \<bar>fst (position ag) - fst p\<bar> + \<bar>snd (position ag) - snd p\<bar>) \<and>
         (\<forall>p \<in> set zs. \<bar>fst (position ag) - fst t\<bar> + \<bar>snd (position ag) - snd t\<bar>
                        \<le> \<bar>fst (position ag) - fst p\<bar> + \<bar>snd (position ag) - snd p\<bar>) \<and>
         update_target ag pg draws =
           Inr (Some (ag\<lparr>agent.orb_positions := ys @ zs, target_position := Some t,
                         is_a_random_target := False\<rparr>))))"
proof (intro conjI impI)
  assume "target_position ag \<noteq> None \<and> \<not> is_a_random_target ag"
  then show "update_target ag pg draws = Inr (Some ag)"
    by (simp add: update_target_def)
next
  assume a: "(target_position ag = None \<or> is_a_random_target ag) \<and> has_ball ag \<and>
    hole_positions ag \<noteq> []"
  then have ne: "hole_positions ag \<noteq> []" by simp
  from find_nearest_target_first [OF ne, of ag, unfolded manhattan_distance_def] obtain ys t zs
    where s: "hole_positions ag = ys @ t # zs"
      and before: "\<forall>p \<in> set ys. \<bar>fst (position ag) - fst t\<bar> + \<bar>snd (position ag) - snd t\<bar>
                        < \<bar>fst (position ag) - fst p\<bar> + \<bar>snd (position ag) - snd p\<bar>"
      and after: "\<forall>p \<in> set zs. \<bar>fst (position ag) - fst t\<bar> + \<bar>snd (position ag) - snd t\<bar>
                        \<le> \<bar>fst (position ag) - fst p\<bar> + \<bar>snd (position ag) - snd p\<bar>"
      and f: "find_nearest_target ag (hole_positions ag) = Inr (t, ys @ zs)"
    by blast
  have "update_target ag pg draws =
      Inr (Some (ag\<lparr>hole_positions := ys @ zs, target_position := Some t,
                    is_a_random_target := False\<rparr>))"
    using a f by (auto simp add: update_target_def Let_def)
  with s before after
  show "\<exists>ys t zs. hole_positions ag = ys @ t # zs \<and>
         (\<forall>p \<in> set ys. \<bar>fst (position ag) - fst t\<bar> + \<bar>snd (position ag) - snd t\<bar>
                        < \<bar>fst (position ag) - fst p\<bar> + \<bar>snd (position ag) - snd p\<bar>) \<and>
         (\<forall>p \<in> set zs. \<bar>fst (position ag) - fst t\<bar> + \<bar>snd (position ag) - snd t\<bar>
                        \<le> \<bar>fst (position ag) - fst p\<bar> + \<bar>snd (position ag) - snd p\<bar>) \<and>
         update_target ag pg draws =
           Inr (Some (ag\<lparr>hole_positions := ys @ zs, target_position := Some t,
                         is_a_random_target := False\<rparr>))"
    by blast
next
  assume a: "(target_position ag = None \<or> is_a_random_target ag) \<and> \<not> has_ball ag \<and>
      agent.orb_positions ag \<noteq> []"
  then have ne: "agent.orb_positions ag \<noteq> []" by simp
  from find_nearest_target_first [OF ne, of ag, unfolded manhattan_distance_def] obtain ys t zs
    where s: "agent.orb_positions ag = ys @ t # zs"
      and before: "\<forall>p \<in> set ys. \<bar>fst (position ag) - fst t\<bar> + \<bar>snd (position ag) - snd t\<bar>
                        < \<bar>fst (position ag) - fst p\<bar> + \<bar>snd (position ag) - snd p\<bar>"
      and after: "\<forall>p \<in> set zs. \<bar>fst (position ag) - fst t\<bar> + \<bar>snd (position ag) - snd t\<bar>
                        \<le> \<bar>fst (position ag) - fst p\<bar> + \<bar>snd (position ag) - snd p\<bar>"
      and f: "find_nearest_target ag (agent.orb_positions ag) = Inr (t, ys @ zs)"
    by blast
  have "update_target ag pg draws =
      Inr (Some (ag\<lparr>agent.orb_positions := ys @ zs, target_position := Some t,
                    is_a_random_target := False\<rparr>))"
    using a f by (auto simp add: update_target_def Let_def)
  with s before after
  show "\<exists>ys t zs. agent.orb_positions ag = ys @ t # zs \<and>
         (\<forall>p \<in> set ys. \<bar>fst (position ag) - fst t\<bar> + \<bar>snd (position ag) - snd t\<bar>
                        < \<bar>fst (position ag) - fst p\<bar> + \<bar>snd (position ag) - snd p\<bar>) \<and>
         (\<forall>p \<in> set zs. \<bar>fst (position ag) - fst t\<bar> + \<bar>snd (position ag) - snd t\<bar>
                        \<le> \<bar>fst (position ag) - fst p\<bar> + \<bar>snd (position ag) - snd p\<bar>) \<and>
         update_target ag pg draws =
           Inr (Some (ag\<lparr>agent.orb_positions := ys @ zs, target_position := Some t,
                         is_a_random_target := False\<rparr>))"
    by blast
qed

theorem update_target_nearest_first_witness:
  "(target_position scout = None \<or> is_a_random_target scout) \<and> \<not> has_ball scout \<and>
   position scout = (2, 2) \<and>
   agent.orb_positions scout = [(2, 4), (4, 2), (1, 2), (2, 1)] \<and>
   hole_positions scout = [(2, 0), (4, 2), (3, 2)] \<and>
   update_target scout (Playground tokens (5, 5) 5 5 3) (\<lambda>k. (0, 0)) =
     Inr (Some (scout\<lparr>agent.orb_positions := [(2, 4), (4, 2), (2, 1)],
                      target_position := Some (1, 2), is_a_random_target := False\<rparr>)) \<and>
   update_target (scout\<lparr>has_ball := True\<rparr>) (Playground tokens (5, 5) 5 5 3) (\<lambda>k. (0, 0)) =
     Inr (Some (scout\<lparr>has_ball := True, hole_positions := [(2, 0), (4, 2)],
                      target_position := Some (3, 2), is_a_random_target := False\<rparr>)) \<and>
   update_target (scout\<lparr>target_position := Some (3, 2)\<rparr>) (Playground tokens (5, 5) 5 5 3)
       (\<lambda>k. (0, 0)) =
     Inr (Some (scout\<lparr>target_position := Some (3, 2)\<rparr>))"
proof -
  let ?pg = "Playground tokens (5, 5) 5 5 3"
  have s: "target_position scout = None" "\<not> is_a_random_target scout" "\<not> has_ball scout"
    "agent.orb_positions scout = [(2, 4), (4, 2), (1, 2), (2, 1)]"
    "hole_positions scout = [(2, 0), (4, 2), (3, 2)]" "position scout = (2, 2)"
    by (simp_all add: scout_def agent_at_def)
  from update_target_nearest_first [of scout ?pg "\<lambda>k. (0, 0)"] s
  obtain ys t zs where split: "[(2, 4), (4, 2), (1, 2), (2, 1)] = ys @ t # zs"
    and before: "\<forall>p \<in> set ys. \<bar>2 - fst t\<bar> + \<bar>2 - snd t\<bar> < \<bar>2 - fst p\<bar> + \<bar>2 - snd p\<bar>"
    and after: "\<forall>p \<in> set zs. \<bar>2 - fst t\<bar> + \<bar>2 - snd t\<bar> \<le> \<bar>2 - fst p\<bar> + \<bar>2 - snd p\<bar>"
    and res: "update_target scout ?pg (\<lambda>k. (0, 0)) =
           Inr (Some (scout\<lparr>agent.orb_positions := ys @ zs, target_position := Some t,
                         is_a_random_target := False\<rparr>))"
    by auto
  from split have "ys = [] \<and> t = (2, 4) \<and> zs = [(4, 2), (1, 2), (2, 1)]
      \<or> ys = [(2, 4)] \<and> t = (4, 2) \<and> zs = [(1, 2), (2, 1)]
      \<or> ys = [(2, 4), (4, 2)] \<and> t = (1, 2) \<and> zs = [(2, 1)]
      \<or> ys = [(2, 4), (4, 2), (1, 2)] \<and> t = (2, 1) \<and> zs = []"
    by (auto simp add: Cons_eq_append_conv)
  with before after have pick: "ys = [(2, 4), (4, 2)] \<and> t = (1, 2) \<and> zs = [(2, 1)]"
    by auto
  have orbs: "update_target scout ?pg (\<lambda>k. (0, 0)) =
     Inr (Some (scout\<lparr>agent.orb_positions := [(2, 4), (4, 2), (2, 1)],
                      target_position := Some (1, 2), is_a_random_target := False\<rparr>))"
    using res pick by simp
  have holes: "update_target (scout\<lparr>has_ball := True\<rparr>) ?pg (\<lambda>k. (0, 0)) =
     Inr (Some (scout\<lparr>has_ball := True, hole_positions := [(2, 0), (4, 2)],
                      target_position := Some (3, 2), is_a_random_target := False\<rparr>))"
    by (simp add: update_target_def find_nearest_target_def manhattan_distance_def s Let_def)
  have keep: "update_target (scout\<lparr>target_position := Some (3, 2)\<rparr>) ?pg (\<lambda>k. (0, 0)) =
      Inr (Some (scout\<lparr>target_position := Some (3, 2)\<rparr>))"
    using update_target_nearest_first [of "scout\<lparr>target_position := Some (3, 2)\<rparr>" ?pg "\<lambda>k. (0, 0)"]
    by (simp add: s)
  from orbs holes keep s show ?thesis by simp
qed

section \<open>Reading and writing cells of a rectangular grid\<close>

declare in_grid.simps [simp del] put_cell.simps [simp del]

lemma rectangular_put_cell: "rectangular pg \<Longrightarrow> rectangular (put_cell pg p s)"
proof -
  assume r: "rectangular pg"
  obtain x y where p: "p = (x, y)" by (cases p)
  have "length row = nat (xAxis pg)"
    if "row \<in> set ((grid pg)[nat y := (grid pg ! nat y)[nat x := s]])" for row
  proof -
    from that have "row = (grid pg ! nat y)[nat x := s] \<and> nat y < length (grid pg) \<or> row \<in> set (grid pg)"
      by (metis in_set_conv_nth length_list_update nth_list_update_eq nth_list_update_neq)
    then show ?thesis using r by (auto simp add: rectangular_def)
  qed
  with r show ?thesis by (simp add: rectangular_def p put_cell.simps)
qed

lemma put_cell_fields [simp]:
  "xAxis (put_cell pg p s) = xAxis pg" "yAxis (put_cell pg p s) = yAxis pg"
  "playground.orb_positions (put_cell pg p s) = playground.orb_positions pg"
  "agent_start_positions (put_cell pg p s) = agent_start_positions pg"
  by (cases p; simp add: put_cell.simps)+

lemma in_grid_put_cell [simp]: "in_grid (put_cell pg p s) q = in_grid pg q"
  by (cases q) (simp add: in_grid.simps)

lemma is_valid_position_put_cell [simp]:
  "is_valid_position (put_cell pg p s) q = is_valid_position pg q"
  by (cases q) (simp add: is_valid_position_iff)

lemma get_cell_state_in_grid':
  "rectangular pg \<Longrightarrow> in_grid pg p \<Longrightarrow> get_cell_state pg p = Inr (grid pg ! nat (snd p) ! nat (fst p))"
  by (cases p) (simp add: in_grid.simps get_cell_state_in_grid)

lemma grid_setitem_in_grid:
  assumes "rectangular pg" and "in_grid pg (x, y)"
  shows "grid_setitem (grid pg) y x s = Inr (grid (put_cell pg (x, y) s))"
proof -
  from assms have y: "nat y < length (grid pg)" "0 \<le> y" "0 \<le> x" "x < xAxis pg"
    by (simp_all add: rectangular_def in_grid.simps)
  then have "grid pg ! nat y \<in> set (grid pg)" by simp
  with assms(1) have "length (grid pg ! nat y) = nat (xAxis pg)"
    by (simp add: rectangular_def)
  with y show ?thesis
    by (simp add: grid_setitem_def py_setitem_def py_index_def put_cell.simps)
qed

lemma put_cell_grid: "pg\<lparr>grid := grid (put_cell pg p s)\<rparr> = put_cell pg p s"
  by (cases p) (simp add: put_cell.simps)

lemma get_cell_state_put_cell:
  assumes "rectangular pg" and "in_grid pg p" and "in_grid pg q"
  shows "get_cell_state (put_cell pg p s) q = (if q = p then Inr s else get_cell_state pg q)"
proof -
  obtain x y where p: "p = (x, y)" by (cases p)
  obtain u v where q: "q = (u, v)" by (cases q)
  from assms p q have b: "0 \<le> x" "x < xAxis pg" "0 \<le> y" "y < yAxis pg"
    "0 \<le> u" "u < xAxis pg" "0 \<le> v" "v < yAxis pg"
    by (simp_all add: in_grid.simps)
  from assms(1) b have ly: "nat y < length (grid pg)" "nat v < length (grid pg)"
    by (simp_all add: rectangular_def)
  then have "grid pg ! nat y \<in> set (grid pg)" by simp
  with assms(1) have lx: "length (grid pg ! nat y) = nat (xAxis pg)"
    by (simp add: rectangular_def)
  have r': "rectangular (put_cell pg p s)" using assms(1) by (rule rectangular_put_cell)
  have "get_cell_state (put_cell pg p s) q = Inr (grid (put_cell pg p s) ! nat v ! nat u)"
    using r' assms(3) q by (simp add: get_cell_state_in_grid')
  moreover have "get_cell_state pg q = Inr (grid pg ! nat v ! nat u)"
    using assms q by (simp add: get_cell_state_in_grid')
  moreover have "grid (put_cell pg p s) ! nat v ! nat u =
      (if q = p then s else grid pg ! nat v ! nat u)"
    using b ly lx p q by (auto simp add: put_cell.simps nth_list_update)
  ultimately show ?thesis by simp
qed

lemma replace_in_cell_in_grid:
  assumes "rectangular pg" and "in_grid pg p" and "get_cell_state pg p = Inr s"
  shows "replace_in_cell pg p old new = Inr (put_cell pg p (py_replace s old new))"
proof -
  obtain x y where p: "p = (x, y)" by (cases p)
  show ?thesis
    using assms grid_setitem_in_grid [of pg x y] 
    by (simp add: replace_in_cell_def p put_cell_grid)
qed

lemma valid_read_in_grid:
  assumes "rectangular pg" and "is_valid_position pg p" and "get_cell_state pg p = Inr s"
  shows "in_grid pg p"
proof -
  obtain x y where p: "p = (x, y)" by (cases p)
  from assms(2) p have b: "0 \<le> x" "x < xAxis pg" "0 \<le> y"
    by (simp_all add: is_valid_position_iff)
  have "y < yAxis pg"
  proof (rule ccontr)
    assume "\<not> y < yAxis pg"
    with assms(1) b have "py_getitem (grid pg) y = Inl IndexError"
      by (simp add: rectangular_def py_getitem_def py_index_def)
    with assms(3) p show False by (simp add: get_cell_state.simps)
  qed
  with b p show ?thesis by (simp add: in_grid.simps)
qed


lemma get_new_position_neq: "get_new_position d p \<noteq> p"
  by (cases d; cases p) simp_all

lemma switch_orb_relocate:
  assumes r: "rectangular pg" and o: "in_grid pg orb" and reg: "orb \<in> playground.orb_positions pg"
    and n: "in_grid pg np" and ne: "np \<noteq> orb"
    and origin: "get_cell_state pg orb = Inr origin" and lbl: "get_cell_state pg np = Inr lbl"
  shows "(case replace_in_cell pg orb oa na of
            Inl e \<Rightarrow> Inl e
          | Inr pg1 \<Rightarrow>
              (case replace_in_cell pg1 np ob nb of
                 Inl e \<Rightarrow> Inl e
               | Inr pg2 \<Rightarrow>
                   if orb \<in> playground.orb_positions pg2
                   then Inr (pg2\<lparr>playground.orb_positions := upd (playground.orb_positions pg2)\<rparr>)
                   else Inl KeyError))
         = Inr ((put_cell (put_cell pg orb (py_replace origin oa na)) np (py_replace lbl ob nb))
                 \<lparr>playground.orb_positions := upd (playground.orb_positions pg)\<rparr>)"
proof -
  let ?pg1 = "put_cell pg orb (py_replace origin oa na)"
  have 1: "replace_in_cell pg orb oa na = Inr ?pg1"
    using r o origin by (rule replace_in_cell_in_grid)
  have r1: "rectangular ?pg1" using r by (rule rectangular_put_cell)
  have n1: "in_grid ?pg1 np" using n by simp
  have "get_cell_state ?pg1 np = Inr lbl"
    using get_cell_state_put_cell [OF r o n] ne lbl by simp
  with r1 n1 have 2: "replace_in_cell ?pg1 np ob nb = Inr (put_cell ?pg1 np (py_replace lbl ob nb))"
    by (rule replace_in_cell_in_grid)
  show ?thesis using 1 2 reg by simp
qed

lemma py_index_less: "py_index n i = Inr k \<Longrightarrow> k < n"
  by (auto simp add: py_index_def Let_def split: if_splits)

lemma read_then_write:
  assumes "get_cell_state pg (x, y) = Inr s"
  shows "\<exists>g. grid_setitem (grid pg) y x v = Inr g \<and> get_cell_state (pg\<lparr>grid := g\<rparr>) (x, y) = Inr v"
proof -
  from assms obtain r where r: "py_index (length (grid pg)) y = Inr r"
    by (auto simp add: get_cell_state.simps py_getitem_def split: sum.splits)
  with assms obtain c where c: "py_index (length (grid pg ! r)) x = Inr c"
    by (auto simp add: get_cell_state.simps py_getitem_def split: sum.splits)
  from r c have lt: "r < length (grid pg)" "c < length (grid pg ! r)"
    by (auto dest: py_index_less)
  let ?g = "(grid pg)[r := (grid pg ! r)[c := v]]"
  have "grid_setitem (grid pg) y x v = Inr ?g"
    using r c by (simp add: grid_setitem_def py_setitem_def)
  moreover have "get_cell_state (pg\<lparr>grid := ?g\<rparr>) (x, y) = Inr v"
    using r c lt by (simp add: get_cell_state.simps py_getitem_def)
  ultimately show ?thesis by blast
qed

lemma agent_exit_cell_registry:
  "agent_exit_cell K pg ag = Inr pg1 \<Longrightarrow>
     playground.orb_positions pg1 = playground.orb_positions pg"
  by (auto simp add: agent_exit_cell_def split: sum.splits prod.splits)

lemma agent_enter_cell_registry:
  "agent_enter_cell K pg pos ag = Inr (entered, pg1) \<Longrightarrow>
     playground.orb_positions pg1 = playground.orb_positions pg"
  by (auto simp add: agent_enter_cell_def split: sum.splits prod.splits if_splits
      dest: agent_exit_cell_registry)

lemma take_step_forward_registry:
  "take_step_forward K ag pg = Inr (r, ag1, pg1) \<Longrightarrow>
     playground.orb_positions pg1 = playground.orb_positions pg"
  by (auto simp add: take_step_forward_def Let_def split: sum.splits prod.splits
      dest: agent_enter_cell_registry)

section \<open>Orb redistribution\<close>

text \<open>
  One pass of the loop body of \<open>switch_orb_positions\<close>, for an orb that lies in the grid
  and in the registry, with \<open>d\<close> the direction drawn and \<open>prob\<close> the number drawn, and
  with the destination judged as the code judges it, by \<open>is_valid_position\<close>. Nothing
  changes when \<open>prob > 0.1\<close>, when the destination is rejected, or when it holds \<open>ORB\<close>
  or \<open>FILLED_HOLE\<close>; a destination holding \<open>EMPTY\<close> gets \<open>ORB\<close> in its place, the origin
  gets \<open>EMPTY\<close> in place of \<open>ORB\<close>, and the registry holds the destination instead of
  the origin; a destination holding \<open>HOLE\<close> gets \<open>FILLED_HOLE\<close> in its place, the origin
  gets \<open>EMPTY\<close>, and the orb leaves the registry. A destination that is accepted and
  whose read raises makes the method raise.
\<close>

lemma switch_orb_outcomes:
  assumes "rectangular pg" and "in_grid pg orb" and "orb \<in> playground.orb_positions pg"
  shows "switch_orb_positions K iter rnd pg =
           switch_orbs K pg rnd 0 (iter (playground.orb_positions pg)) \<and>
    (0.1 < prob \<longrightarrow> switch_orb K pg orb (d, prob) = Inr pg) \<and>
    (prob \<le> 0.1 \<and> \<not> is_valid_position pg (get_new_position d orb) \<longrightarrow>
       switch_orb K pg orb (d, prob) = Inr pg) \<and>
    (\<forall>e. prob \<le> 0.1 \<and> is_valid_position pg (get_new_position d orb) \<and>
         get_cell_state pg (get_new_position d orb) = Inl e \<longrightarrow>
       switch_orb K pg orb (d, prob) = Inl e) \<and>
    (\<forall>lbl. prob \<le> 0.1 \<and> is_valid_position pg (get_new_position d orb) \<and>
         get_cell_state pg (get_new_position d orb) = Inr lbl \<longrightarrow>
       (if contains (ORB K) lbl \<or> contains (FILLED_HOLE K) lbl
        then switch_orb K pg orb (d, prob) = Inr pg
        else if contains (EMPTY K) lbl
        then \<exists>origin. get_cell_state pg orb = Inr origin \<and>
               switch_orb K pg orb (d, prob) =
                 Inr ((put_cell (put_cell pg orb (py_replace origin (ORB K) (EMPTY K)))
                         (get_new_position d orb) (py_replace lbl (EMPTY K) (ORB K)))
                      \<lparr>playground.orb_positions :=
                         insert (get_new_position d orb) (playground.orb_positions pg - {orb})\<rparr>)
        else if contains (HOLE K) lbl
        then \<exists>origin. get_cell_state pg orb = Inr origin \<and>
               switch_orb K pg orb (d, prob) =
                 Inr ((put_cell (put_cell pg orb (py_replace origin (ORB K) (EMPTY K)))
                         (get_new_position d orb) (py_replace lbl (HOLE K) (FILLED_HOLE K)))
                      \<lparr>playground.orb_positions := playground.orb_positions pg - {orb}\<rparr>)
        else switch_orb K pg orb (d, prob) = Inr pg))"
proof (intro conjI allI impI)
  show "switch_orb_positions K iter rnd pg =
           switch_orbs K pg rnd 0 (iter (playground.orb_positions pg))"
    by (simp add: switch_orb_positions_def)
next
  assume "0.1 < prob"
  then show "switch_orb K pg orb (d, prob) = Inr pg" by (simp add: switch_orb_def)
next
  assume "prob \<le> 0.1 \<and> \<not> is_valid_position pg (get_new_position d orb)"
  then show "switch_orb K pg orb (d, prob) = Inr pg" by (simp add: switch_orb_def)
next
  fix e
  assume "prob \<le> 0.1 \<and> is_valid_position pg (get_new_position d orb) \<and>
         get_cell_state pg (get_new_position d orb) = Inl e"
  then show "switch_orb K pg orb (d, prob) = Inl e" by (simp add: switch_orb_def)
next
  fix lbl
  let ?np = "get_new_position d orb"
  assume a: "prob \<le> 0.1 \<and> is_valid_position pg ?np \<and> get_cell_state pg ?np = Inr lbl"
  then have n: "in_grid pg ?np" using assms(1) valid_read_in_grid by blast
  have ne: "?np \<noteq> orb" by (rule get_new_position_neq)
  from assms(1,2) obtain origin where origin: "get_cell_state pg orb = Inr origin"
    by (simp add: get_cell_state_in_grid')
  from a have lbl: "get_cell_state pg ?np = Inr lbl" by simp
  note move = switch_orb_relocate [OF assms n ne origin lbl]
  from a have step: "switch_orb K pg orb (d, prob) =
     (if contains (ORB K) lbl \<or> contains (FILLED_HOLE K) lbl then Inr pg
      else if contains (EMPTY K) lbl then
        (case replace_in_cell pg orb (ORB K) (EMPTY K) of
           Inl e \<Rightarrow> Inl e
         | Inr pg1 \<Rightarrow>
             (case replace_in_cell pg1 ?np (EMPTY K) (ORB K) of
                Inl e \<Rightarrow> Inl e
              | Inr pg2 \<Rightarrow>
                  if orb \<in> playground.orb_positions pg2
                  then Inr (pg2\<lparr>playground.orb_positions :=
                               insert ?np (playground.orb_positions pg2 - {orb})\<rparr>)
                  else Inl KeyError))
      else if contains (HOLE K) lbl then
        (case replace_in_cell pg orb (ORB K) (EMPTY K) of
           Inl e \<Rightarrow> Inl e
         | Inr pg1 \<Rightarrow>
             (case replace_in_cell pg1 ?np (HOLE K) (FILLED_HOLE K) of
                Inl e \<Rightarrow> Inl e
              | Inr pg2 \<Rightarrow>
                  if orb \<in> playground.orb_positions pg2
                  then Inr (pg2\<lparr>playground.orb_positions := playground.orb_positions pg2 - {orb}\<rparr>)
                  else Inl KeyError))
      else Inr pg)"
    by (simp add: switch_orb_def Let_def)
  show "if contains (ORB K) lbl \<or> contains (FILLED_HOLE K) lbl
        then switch_orb K pg orb (d, prob) = Inr pg
        else if contains (EMPTY K) lbl
        then \<exists>origin. get_cell_state pg orb = Inr origin \<and>
               switch_orb K pg orb (d, prob) =
                 Inr ((put_cell (put_cell pg orb (py_replace origin (ORB K) (EMPTY K)))
                         ?np (py_replace lbl (EMPTY K) (ORB K)))
                      \<lparr>playground.orb_positions :=
                         insert ?np (playground.orb_positions pg - {orb})\<rparr>)
        else if contains (HOLE K) lbl
        then \<exists>origin. get_cell_state pg orb = Inr origin \<and>
               switch_orb K pg orb (d, prob) =
                 Inr ((put_cell (put_cell pg orb (py_replace origin (ORB K) (EMPTY K)))
                         ?np (py_replace lbl (HOLE K) (FILLED_HOLE K)))
                      \<lparr>playground.orb_positions := playground.orb_positions pg - {orb}\<rparr>)
        else switch_orb K pg orb (d, prob) = Inr pg"
    using step origin
      move [where oa = "ORB K" and na = "EMPTY K" and ob = "EMPTY K" and nb = "ORB K"
              and upd = "\<lambda>S. insert ?np (S - {orb})"]
      move [where oa = "ORB K" and na = "EMPTY K" and ob = "HOLE K" and nb = "FILLED_HOLE K"
              and upd = "\<lambda>S. S - {orb}"]
    by simp
qed

lemma orb_playground_facts:
  "rectangular orb_playground" "in_grid orb_playground (1, 0)"
  "(1, 0) \<in> playground.orb_positions orb_playground"
  by (simp_all add: rectangular_def orb_playground_def Playground_def in_grid.simps)

lemma switch_orb_outcomes_example:
  "rectangular orb_playground \<and> in_grid orb_playground (1, 0) \<and>
   (1, 0) \<in> playground.orb_positions orb_playground \<and>
   switch_orb tokens orb_playground (1, 0) (RIGHT, 0.5) = Inr orb_playground \<and>
   switch_orb tokens orb_playground (1, 0) (UP, 0.05) = Inr orb_playground \<and>
   switch_orb tokens orb_playground (1, 0) (DOWN, 0.05) = Inr orb_playground \<and>
   switch_orb tokens orb_playground (1, 0) (RIGHT, 0.05) =
     Inr (orb_playground
           \<lparr> grid := [[''hole,agent-a1'', ''empty'', ''orb''],
                      [''empty'', ''filled'', ''empty''],
                      [''empty'', ''empty'', ''empty'']],
             playground.orb_positions := {(2, 0)} \<rparr>) \<and>
   switch_orb tokens orb_playground (1, 0) (LEFT, 0.05) =
     Inr (orb_playground
           \<lparr> grid := [[''filled,agent-a1'', ''empty'', ''empty''],
                      [''empty'', ''filled'', ''empty''],
                      [''empty'', ''empty'', ''empty'']],
             playground.orb_positions := {} \<rparr>)"
proof -
  note f = orb_playground_facts
  note t = switch_orb_outcomes [OF f, where K = tokens]
  have g: "grid orb_playground = [[''hole,agent-a1'', ''orb'', ''empty''],
                  [''empty'', ''filled'', ''empty''],
                  [''empty'', ''empty'', ''empty'']]"
    "xAxis orb_playground = 3" "yAxis orb_playground = 3"
    "playground.orb_positions orb_playground = {(1, 0)}"
    by (simp_all add: orb_playground_def Playground_def)
  have k: "ORB tokens = ''orb''" "EMPTY tokens = ''empty''" "HOLE tokens = ''hole''"
    "FILLED_HOLE tokens = ''filled''"
    by (simp_all add: tokens_def)
  have rd: "get_cell_state orb_playground (1, 0) = Inr ''orb''"
    "get_cell_state orb_playground (2, 0) = Inr ''empty''"
    "get_cell_state orb_playground (0, 0) = Inr ''hole,agent-a1''"
    "get_cell_state orb_playground (1, 1) = Inr ''filled''"
    by (simp_all add: get_cell_state_in_grid f in_grid.simps g)
  have 1: "switch_orb tokens orb_playground (1, 0) (RIGHT, 0.5) = Inr orb_playground"
    using t [where prob = "0.5" and d = RIGHT] by simp
  have 2: "switch_orb tokens orb_playground (1, 0) (UP, 0.05) = Inr orb_playground"
    using t [where prob = "0.05" and d = UP] by (simp add: is_valid_position_iff)
  have 3: "switch_orb tokens orb_playground (1, 0) (DOWN, 0.05) = Inr orb_playground"
    using t [where prob = "0.05" and d = DOWN] by (simp add: is_valid_position_iff g rd k)
  have 4: "switch_orb tokens orb_playground (1, 0) (RIGHT, 0.05) =
     Inr (orb_playground
           \<lparr> grid := [[''hole,agent-a1'', ''empty'', ''orb''],
                      [''empty'', ''filled'', ''empty''],
                      [''empty'', ''empty'', ''empty'']],
             playground.orb_positions := {(2, 0)} \<rparr>)"
    using t [where prob = "0.05" and d = RIGHT]
    by (simp add: is_valid_position_iff g rd k put_cell.simps py_replace_def)
  have 5: "switch_orb tokens orb_playground (1, 0) (LEFT, 0.05) =
     Inr (orb_playground
           \<lparr> grid := [[''filled,agent-a1'', ''empty'', ''empty''],
                      [''empty'', ''filled'', ''empty''],
                      [''empty'', ''empty'', ''empty'']],
             playground.orb_positions := {} \<rparr>)"
    using t [where prob = "0.05" and d = LEFT]
    by (simp add: is_valid_position_iff g rd k put_cell.simps py_replace_def)
  from f 1 2 3 4 5 show ?thesis by simp
qed

text \<open>
  C6. The claim: a move to an invalid destination leaves everything unchanged, and a
  move to an Empty destination relocates the orb. \<open>switch_orb_positions\<close> judges the
  destination by \<open>is_valid_position\<close>, which compares \<open>y\<close> with the width. On the grid
  five wide and three high the orb at \<open>(0, 2)\<close> lies in the bottom row; drawn \<open>DOWN\<close>
  with \<open>0.05\<close>, its destination \<open>(0, 3)\<close> is below the grid, is accepted, and reading
  it raises IndexError. On the grid three wide and five high the destination \<open>(0, 3)\<close>
  of the same orb is in the grid and Empty, is rejected, and the orb stays.
\<close>

theorem switch_orb_positions_misjudges_rows:
  "playground.orb_positions wide_orb_playground = {(0, 2)} \<and>
   bottom_order (playground.orb_positions wide_orb_playground) = [(0, 2)] \<and>
   down_draws 0 = (DOWN, 0.05) \<and>
   get_new_position DOWN (0, 2) = (0, 3) \<and>
   \<not> in_grid wide_orb_playground (0, 3) \<and>
   switch_orb_positions tokens bottom_order down_draws wide_orb_playground = Inl IndexError \<and>
   playground.orb_positions tall_orb_playground = {(0, 2)} \<and>
   in_grid tall_orb_playground (0, 3) \<and>
   get_cell_state tall_orb_playground (0, 3) = Inr ''empty'' \<and>
   switch_orb_positions tokens bottom_order down_draws tall_orb_playground
     = Inr tall_orb_playground"
  by (simp add: wide_orb_playground_def tall_orb_playground_def Playground_def tokens_def
      bottom_order_def down_draws_def in_grid.simps switch_orb_positions_def switch_orb_def
      is_valid_position_iff get_cell_state.simps py_getitem_def py_index_def)

section \<open>Placing an orb\<close>

text \<open>
  The branches of \<open>place_orb\<close>, with the position judged as the code judges it, by
  \<open>is_valid_position\<close>. It returns False, with the playground as it was, exactly when
  the position is rejected, or the agent does not carry an orb, or the cell read there
  does not hold \<open>HOLE\<close>. When the position is accepted, the agent carries an orb and
  the cell holds \<open>HOLE\<close>, the cell gets \<open>FILLED_HOLE\<close> in place of \<open>HOLE\<close> and the result
  is that of one run of \<open>switch_orb_positions\<close> on that playground, with True.
  \<open>agent_enter_cell\<close> and \<open>take_step_forward\<close> leave the orb registry as it is.
\<close>

lemma place_orb_outcomes:
  "(place_orb K iter rnd pg pos ag = Inr (False, pg') \<longleftrightarrow>
      pg' = pg \<and>
      (\<not> is_valid_position pg pos \<or> \<not> has_ball ag \<or>
       (\<exists>s. get_cell_state pg pos = Inr s \<and> \<not> contains (HOLE K) s))) \<and>
   (\<forall>s. is_valid_position pg pos \<and> has_ball ag \<and> get_cell_state pg pos = Inr s \<and>
        contains (HOLE K) s \<longrightarrow>
      (\<exists>g. grid_setitem (grid pg) (snd pos) (fst pos) (py_replace s (HOLE K) (FILLED_HOLE K)) = Inr g \<and>
           get_cell_state (pg\<lparr>grid := g\<rparr>) pos = Inr (py_replace s (HOLE K) (FILLED_HOLE K)) \<and>
           place_orb K iter rnd pg pos ag =
             (case switch_orb_positions K iter rnd (pg\<lparr>grid := g\<rparr>) of
                Inl e \<Rightarrow> Inl e
              | Inr pg2 \<Rightarrow> Inr (True, pg2)))) \<and>
   (\<forall>entered pg1. agent_enter_cell K pg pos ag = Inr (entered, pg1) \<longrightarrow>
      playground.orb_positions pg1 = playground.orb_positions pg) \<and>
   (\<forall>r ag1 pg1. take_step_forward K ag pg = Inr (r, ag1, pg1) \<longrightarrow>
      playground.orb_positions pg1 = playground.orb_positions pg)"
proof (intro conjI allI impI)
  show "place_orb K iter rnd pg pos ag = Inr (False, pg') \<longleftrightarrow>
      pg' = pg \<and>
      (\<not> is_valid_position pg pos \<or> \<not> has_ball ag \<or>
       (\<exists>s. get_cell_state pg pos = Inr s \<and> \<not> contains (HOLE K) s))"
    by (cases pos) (auto simp add: place_orb_def split: sum.splits)
next
  fix s
  assume a: "is_valid_position pg pos \<and> has_ball ag \<and> get_cell_state pg pos = Inr s \<and>
        contains (HOLE K) s"
  obtain x y where pos: "pos = (x, y)" by (cases pos)
  from a pos read_then_write [of pg x y s "py_replace s (HOLE K) (FILLED_HOLE K)"]
  obtain g where g: "grid_setitem (grid pg) y x (py_replace s (HOLE K) (FILLED_HOLE K)) = Inr g"
    and rd: "get_cell_state (pg\<lparr>grid := g\<rparr>) (x, y) = Inr (py_replace s (HOLE K) (FILLED_HOLE K))"
    by auto
  have "place_orb K iter rnd pg pos ag =
      (case switch_orb_positions K iter rnd (pg\<lparr>grid := g\<rparr>) of
         Inl e \<Rightarrow> Inl e
       | Inr pg2 \<Rightarrow> Inr (True, pg2))"
    using a g pos by (simp add: place_orb_def)
  with g rd pos
  show "\<exists>g. grid_setitem (grid pg) (snd pos) (fst pos) (py_replace s (HOLE K) (FILLED_HOLE K)) = Inr g \<and>
           get_cell_state (pg\<lparr>grid := g\<rparr>) pos = Inr (py_replace s (HOLE K) (FILLED_HOLE K)) \<and>
           place_orb K iter rnd pg pos ag =
             (case switch_orb_positions K iter rnd (pg\<lparr>grid := g\<rparr>) of
                Inl e \<Rightarrow> Inl e
              | Inr pg2 \<Rightarrow> Inr (True, pg2))"
    by auto
next
  fix entered pg1
  assume "agent_enter_cell K pg pos ag = Inr (entered, pg1)"
  then show "playground.orb_positions pg1 = playground.orb_positions pg"
    by (rule agent_enter_cell_registry)
next
  fix r ag1 pg1
  assume "take_step_forward K ag pg = Inr (r, ag1, pg1)"
  then show "playground.orb_positions pg1 = playground.orb_positions pg"
    by (rule take_step_forward_registry)
qed

lemma place_orb_outcomes_example:
  "is_valid_position orb_playground (0, 0) \<and> has_ball carrier \<and>
   get_cell_state orb_playground (0, 0) = Inr ''hole,agent-a1'' \<and>
   contains (HOLE tokens) ''hole,agent-a1'' \<and>
   place_orb tokens (\<lambda>S. [(1, 0)]) (\<lambda>k. (RIGHT, 0.05)) orb_playground (0, 0) carrier =
     Inr (True, orb_playground
           \<lparr> grid := [[''filled,agent-a1'', ''empty'', ''orb''],
                      [''empty'', ''filled'', ''empty''],
                      [''empty'', ''empty'', ''empty'']],
             playground.orb_positions := {(2, 0)} \<rparr>) \<and>
   place_orb tokens (\<lambda>S. [(1, 0)]) (\<lambda>k. (RIGHT, 0.05)) orb_playground (1, 0) carrier =
     Inr (False, orb_playground) \<and>
   place_orb tokens (\<lambda>S. [(1, 0)]) (\<lambda>k. (RIGHT, 0.05)) orb_playground (0, 0)
     (carrier\<lparr>has_ball := False\<rparr>) = Inr (False, orb_playground) \<and>
   place_orb tokens (\<lambda>S. [(1, 0)]) (\<lambda>k. (RIGHT, 0.05)) orb_playground (0, 3) carrier =
     Inr (False, orb_playground)"
proof -
  note f = orb_playground_facts
  have g: "grid orb_playground = [[''hole,agent-a1'', ''orb'', ''empty''],
                  [''empty'', ''filled'', ''empty''],
                  [''empty'', ''empty'', ''empty'']]"
    "xAxis orb_playground = 3" "yAxis orb_playground = 3"
    "playground.orb_positions orb_playground = {(1, 0)}"
    by (simp_all add: orb_playground_def Playground_def)
  have k: "ORB tokens = ''orb''" "EMPTY tokens = ''empty''" "HOLE tokens = ''hole''"
    "FILLED_HOLE tokens = ''filled''"
    by (simp_all add: tokens_def)
  have c: "has_ball carrier" by (simp add: carrier_def)
  have rd: "get_cell_state orb_playground (0, 0) = Inr ''hole,agent-a1''"
    "get_cell_state orb_playground (1, 0) = Inr ''orb''"
    by (simp_all add: get_cell_state_in_grid f in_grid.simps g)
  have v: "is_valid_position orb_playground (0, 0)" "is_valid_position orb_playground (1, 0)"
    "\<not> is_valid_position orb_playground (0, 3)"
    by (simp_all add: is_valid_position_iff g)
  note t = place_orb_outcomes [of tokens "\<lambda>S. [(1, 0)]" "\<lambda>k. (RIGHT, 0.05)" orb_playground]
  have 1: "place_orb tokens (\<lambda>S. [(1, 0)]) (\<lambda>k. (RIGHT, 0.05)) orb_playground (1, 0) carrier =
     Inr (False, orb_playground)"
    using t [of "(1, 0)" carrier orb_playground] v rd by (simp add: k)
  have 2: "place_orb tokens (\<lambda>S. [(1, 0)]) (\<lambda>k. (RIGHT, 0.05)) orb_playground (0, 0)
     (carrier\<lparr>has_ball := False\<rparr>) = Inr (False, orb_playground)"
    using t [of "(0, 0)" "carrier\<lparr>has_ball := False\<rparr>" orb_playground] by simp
  have 3: "place_orb tokens (\<lambda>S. [(1, 0)]) (\<lambda>k. (RIGHT, 0.05)) orb_playground (0, 3) carrier =
     Inr (False, orb_playground)"
    using t [of "(0, 3)" carrier orb_playground] v by simp
  have 4: "place_orb tokens (\<lambda>S. [(1, 0)]) (\<lambda>k. (RIGHT, 0.05)) orb_playground (0, 0) carrier =
     Inr (True, orb_playground
           \<lparr> grid := [[''filled,agent-a1'', ''empty'', ''orb''],
                      [''empty'', ''filled'', ''empty''],
                      [''empty'', ''empty'', ''empty'']],
             playground.orb_positions := {(2, 0)} \<rparr>)"
    by (simp add: place_orb_def switch_orb_positions_def switch_orb_def replace_in_cell_def
        v c rd g k is_valid_position_iff get_cell_state.simps py_defs Let_def)
  from v c rd 1 2 3 4 show ?thesis by (simp add: k)
qed

text \<open>
  C5. The claim: \<open>place_orb\<close> returns False and changes nothing exactly when the
  position is invalid, the agent carries no orb, or the cell lacks the Hole token.
  \<open>place_orb\<close> judges the position by \<open>is_valid_position\<close>, which compares \<open>y\<close> with the
  width. On the grid five wide and three high the position \<open>(0, 4)\<close> is below the grid,
  is accepted, and \<open>place_orb\<close> for a carrying agent raises IndexError instead of
  returning False. On the grid three wide and five high the position \<open>(0, 4)\<close> is in
  the grid and holds a hole, is rejected, and \<open>place_orb\<close> for a carrying agent returns
  False with the hole unfilled.
\<close>

theorem place_orb_misjudges_rows:
  "has_ball carrier \<and>
   \<not> in_grid wide_orb_playground (0, 4) \<and>
   place_orb tokens bottom_order down_draws wide_orb_playground (0, 4) carrier = Inl IndexError \<and>
   in_grid tall_orb_playground (0, 4) \<and>
   get_cell_state tall_orb_playground (0, 4) = Inr ''hole'' \<and>
   contains (HOLE tokens) ''hole'' \<and>
   place_orb tokens bottom_order down_draws tall_orb_playground (0, 4) carrier
     = Inr (False, tall_orb_playground)"
  by (simp add: wide_orb_playground_def tall_orb_playground_def Playground_def tokens_def
      carrier_def in_grid.simps place_orb_def
      is_valid_position_iff get_cell_state.simps py_getitem_def py_index_def)

section \<open>Battery\<close>

lemma note_cell_kept [simp]:
  "battery (note_cell K env cell ag) = battery ag"
  "position (note_cell K env cell ag) = position ag"
  "has_ball (note_cell K env cell ag) = has_ball ag"
  by (simp_all add: note_cell_def Let_def)

lemma fold_kept:
  assumes "\<And>x a. sel (step x a) = sel a"
  shows "sel (fold step xs ag) = sel ag"
  using assms by (induction xs arbitrary: ag) simp_all

lemma update_item_positions_kept [simp]:
  "battery (update_item_positions K ag) = battery ag"
  "position (update_item_positions K ag) = position ag"
  "has_ball (update_item_positions K ag) = has_ball ag"
  unfolding update_item_positions_def Let_def
  by (rule fold_kept, simp add: split_def, rule fold_kept, simp add: split_def)+

lemma see_kept [simp]:
  "battery (see ag cells) = battery ag" "position (see ag cells) = position ag"
  "has_ball (see ag cells) = has_ball ag"
  by (simp_all add: see_def)

declare turn_until.simps [simp del]

lemma turn_until_battery [simp]: "battery (turn_until goal ag) = battery ag"
proof (induction goal ag rule: turn_until.induct)
  case (1 goal ag)
  show ?case
  proof (cases "direction ag = goal")
    case True
    then show ?thesis by (subst turn_until.simps) simp
  next
    case False
    with "1.IH" have "battery (turn_until goal (turn_clockwise ag)) = battery (turn_clockwise ag)"
      by simp
    moreover have "turn_until goal ag = turn_until goal (turn_clockwise ag)"
      using False by (subst turn_until.simps) simp
    ultimately show ?thesis by (simp add: turn_clockwise_def)
  qed
qed

lemma face_target_battery [simp]: "battery (face_target ag target) = battery ag"
  by (cases target) (simp add: face_target_def)










lemma pickup_setup:
  "Agent tokens ''a1'' (0, 0) 3 30 = Inr (agent_at ''a1'' (0, 0))"
  "add_agent tokens (Playground tokens (3, 3) 0 1 3) (agent_at ''a1'' (0, 0))
     = Inr (True, pickup_added)"
  "place_holes_and_orbs tokens orb_first pickup_added = Inr pickup_playground0"
proof -
  have l: "get_label tokens (agent_at ''a1'' (0, 0)) = ''agent-a1''"
    "position (agent_at ''a1'' (0, 0)) = (0, 0)"
    "EMPTY tokens = ''empty''"
    by (simp_all add: get_label_def tokens_def agent_at_def)
  show "Agent tokens ''a1'' (0, 0) 3 30 = Inr (agent_at ''a1'' (0, 0))"
    by (rule agent_at_init)
  show "add_agent tokens (Playground tokens (3, 3) 0 1 3) (agent_at ''a1'' (0, 0))
      = Inr (True, pickup_added)"
    by (simp add: add_agent_def l pickup_added_def Playground_def
        grid_setitem_def py_setitem_def py_index_def eval_nat_numeral)
  show "place_holes_and_orbs tokens orb_first pickup_added = Inr pickup_playground0"
    by (simp add: place_holes_and_orbs_def orb_first_def pickup_added_def pickup_playground0_def
        Playground_def tokens_def upto.simps grid_setitem_def py_setitem_def py_index_def
        Let_def)
qed







end
